theory Spec2Isabelle
  imports Complex_Main
begin

section \<open>JavaScript numbers\<close>

text \<open>
  A JavaScript number is an IEEE-754 double.  The model keeps the three special values
  apart and represents a finite double by the real number it denotes; the two zeros
  are one value, read as \<open>+0\<close> where the sign of a zero decides a result.  The zero
  divisors that matter below are a difference of two equal values and an array length,
  which are \<open>+0\<close> in IEEE arithmetic as well.

  The operations \<open>jadd\<close>, \<open>jsub\<close>, \<open>jmul\<close>, \<open>jdiv\<close> and \<open>jlog\<close> of this section do not
  round.  They serve the value-to-style mapper, of which only the places where \<open>NaN\<close>
  and the infinities arise are stated below.  The resampler, whose results are stated
  as values, adds and divides with \<open>dadd\<close> and \<open>ddiv\<close>, which round every finite result
  to the nearest double (section ``Rounding to double'').
\<close>

datatype jsnum = NaN | NegInf | Fin real | PosInf

fun jneg :: "jsnum \<Rightarrow> jsnum" where
  "jneg NaN = NaN"
| "jneg NegInf = PosInf"
| "jneg PosInf = NegInf"
| "jneg (Fin a) = Fin (- a)"

fun jadd :: "jsnum \<Rightarrow> jsnum \<Rightarrow> jsnum" where
  "jadd (Fin a) (Fin b) = Fin (a + b)"
| "jadd NaN _ = NaN"
| "jadd _ NaN = NaN"
| "jadd PosInf NegInf = NaN"
| "jadd NegInf PosInf = NaN"
| "jadd PosInf _ = PosInf"
| "jadd _ PosInf = PosInf"
| "jadd NegInf _ = NegInf"
| "jadd _ NegInf = NegInf"

definition jsub :: "jsnum \<Rightarrow> jsnum \<Rightarrow> jsnum" where
  "jsub a b = jadd a (jneg b)"

text \<open>An infinity times a finite factor: \<open>NaN\<close> at zero, else the sign of the factor.\<close>

definition inf_times :: "jsnum \<Rightarrow> real \<Rightarrow> jsnum" where
  "inf_times i b = (if b = 0 then NaN else if 0 < b then i else jneg i)"

fun jmul :: "jsnum \<Rightarrow> jsnum \<Rightarrow> jsnum" where
  "jmul (Fin a) (Fin b) = Fin (a * b)"
| "jmul NaN _ = NaN"
| "jmul _ NaN = NaN"
| "jmul (Fin a) i = inf_times i a"
| "jmul i (Fin b) = inf_times i b"
| "jmul PosInf i = i"
| "jmul NegInf i = jneg i"

fun jdiv :: "jsnum \<Rightarrow> jsnum \<Rightarrow> jsnum" where
  "jdiv (Fin a) (Fin b) =
     (if b = 0 then (if a = 0 then NaN else if 0 < a then PosInf else NegInf)
      else Fin (a / b))"
| "jdiv NaN _ = NaN"
| "jdiv _ NaN = NaN"
| "jdiv (Fin a) _ = Fin 0"
| "jdiv i (Fin b) = (if 0 \<le> b then i else jneg i)"
| "jdiv _ _ = NaN"

text \<open>\<open>Math.log\<close> and \<open>Math.round\<close> (which rounds a half towards \<open>+Infinity\<close>).\<close>

fun jlog :: "jsnum \<Rightarrow> jsnum" where
  "jlog (Fin a) = (if a < 0 then NaN else if a = 0 then NegInf else Fin (ln a))"
| "jlog PosInf = PosInf"
| "jlog _ = NaN"

fun jround :: "jsnum \<Rightarrow> jsnum" where
  "jround (Fin a) = Fin (of_int \<lfloor>a + 1 / 2\<rfloor>)"
| "jround v = v"

text \<open>The comparisons \<open><\<close>, \<open>==\<close>, \<open><=\<close>, \<open>>\<close>, \<open>>=\<close>: all false when an operand is \<open>NaN\<close>.\<close>

fun jlt :: "jsnum \<Rightarrow> jsnum \<Rightarrow> bool" where
  "jlt (Fin a) (Fin b) = (a < b)"
| "jlt NaN _ = False"
| "jlt _ NaN = False"
| "jlt _ NegInf = False"
| "jlt NegInf _ = True"
| "jlt PosInf _ = False"
| "jlt _ PosInf = True"

definition jeq :: "jsnum \<Rightarrow> jsnum \<Rightarrow> bool" where
  "jeq a b = (a \<noteq> NaN \<and> a = b)"

definition jle :: "jsnum \<Rightarrow> jsnum \<Rightarrow> bool" where
  "jle a b = (jlt a b \<or> jeq a b)"

definition jgt :: "jsnum \<Rightarrow> jsnum \<Rightarrow> bool" where
  "jgt a b = jlt b a"

definition jge :: "jsnum \<Rightarrow> jsnum \<Rightarrow> bool" where
  "jge a b = jle b a"

text \<open>Truthiness of a number: \<open>0\<close> and \<open>NaN\<close> are falsy.\<close>

definition truthy :: "jsnum \<Rightarrow> bool" where
  "truthy v = (v \<noteq> NaN \<and> v \<noteq> Fin 0)"

text \<open>\<open>x || 0\<close> for a value that is a number or \<open>undefined\<close> (\<open>None\<close>).\<close>

definition or_zero :: "jsnum option \<Rightarrow> jsnum" where
  "or_zero x = (case x of None \<Rightarrow> Fin 0 | Some v \<Rightarrow> if truthy v then v else Fin 0)"

definition is_fin :: "jsnum \<Rightarrow> bool" where
  "is_fin v = (case v of Fin _ \<Rightarrow> True | _ \<Rightarrow> False)"

section \<open>Rounding to double\<close>

text \<open>
  The finite doubles are the numbers \<open>m * 2^e\<close> with \<open>|m| < 2^53\<close> and
  \<open>-1074 <= e <= 971\<close>.  \<open>round_double\<close> is round-to-nearest, ties to the even
  significand: a number of magnitude \<open>2^1024 - 2^970\<close> or more (half a step above the
  largest double) rounds to an infinity; any other \<open>x\<close> is scaled by the step at its
  exponent, \<open>2^(max(floor(log2 |x|), -1022) - 52)\<close>, rounded to an integer and scaled
  back.
\<close>

definition pow2 :: "int \<Rightarrow> real" where
  "pow2 k = (if 0 \<le> k then 2 ^ nat k else 1 / 2 ^ nat (- k))"

definition half_even :: "real \<Rightarrow> int" where
  "half_even q =
     (let f = \<lfloor>q\<rfloor>; d = q - of_int f
      in if d < 1 / 2 then f else if 1 / 2 < d then f + 1 else if even f then f else f + 1)"

definition ulp_exp :: "real \<Rightarrow> int" where
  "ulp_exp x = max \<lfloor>log 2 \<bar>x\<bar>\<rfloor> (- 1022) - 52"

definition round_double :: "real \<Rightarrow> jsnum" where
  "round_double x =
     (if x = 0 then Fin 0
      else if 2 ^ 1024 - 2 ^ 970 \<le> \<bar>x\<bar> then (if 0 < x then PosInf else NegInf)
      else Fin (of_int (half_even (x / pow2 (ulp_exp x))) * pow2 (ulp_exp x)))"

text \<open>Addition and division of doubles: as above on the special values, rounded otherwise.\<close>

fun dadd :: "jsnum \<Rightarrow> jsnum \<Rightarrow> jsnum" where
  "dadd (Fin a) (Fin b) = round_double (a + b)"
| "dadd a b = jadd a b"

fun ddiv :: "jsnum \<Rightarrow> jsnum \<Rightarrow> jsnum" where
  "ddiv (Fin a) (Fin b) = (if b = 0 then jdiv (Fin a) (Fin b) else round_double (a / b))"
| "ddiv a b = jdiv a b"

section \<open>Value-to-style mapper\<close>

text \<open>
  \<open>getColorForFlow\<close> returns either the string literal \<open>"#94a3b8"\<close> or the template
  string \<open>`rgb(${r}, ${g}, ${b})`\<close>; the model keeps the three interpolated numbers of
  the template, which determine the string.  The two module-level variables the
  functions read, \<open>minFlowValue\<close> and \<open>maxFlowValue\<close>, are passed as arguments.
\<close>

datatype css_color = Literal string | RgbTemplate jsnum jsnum jsnum

record color_stop =
  cp_pos :: jsnum
  cp_r :: jsnum
  cp_g :: jsnum
  cp_b :: jsnum

definition colors :: "color_stop list" where
  "colors =
    [\<lparr>cp_pos = Fin 0, cp_r = Fin 59, cp_g = Fin 130, cp_b = Fin 246\<rparr>,
     \<lparr>cp_pos = Fin (1 / 4), cp_r = Fin 6, cp_g = Fin 182, cp_b = Fin 212\<rparr>,
     \<lparr>cp_pos = Fin (1 / 2), cp_r = Fin 16, cp_g = Fin 185, cp_b = Fin 129\<rparr>,
     \<lparr>cp_pos = Fin (3 / 4), cp_r = Fin 245, cp_g = Fin 158, cp_b = Fin 11\<rparr>,
     \<lparr>cp_pos = Fin 1, cp_r = Fin 239, cp_g = Fin 68, cp_b = Fin 68\<rparr>]"

text \<open>The expression bound to \<open>normalized\<close> in both functions.\<close>

definition normalized :: "jsnum \<Rightarrow> jsnum \<Rightarrow> jsnum \<Rightarrow> jsnum" where
  "normalized minFlowValue maxFlowValue v =
     jdiv (jsub (jlog (jadd v (Fin 1))) (jlog (jadd minFlowValue (Fin 1))))
          (jsub (jlog (jadd maxFlowValue (Fin 1))) (jlog (jadd minFlowValue (Fin 1))))"

text \<open>
  The loop \<open>for (i = 0; i < colors.length - 1; i++)\<close> with its \<open>break\<close>: the first pair
  of neighbouring stops that brackets \<open>n\<close>, or nothing (\<open>color1\<close> stays undefined).
\<close>

fun find_stops :: "jsnum \<Rightarrow> color_stop list \<Rightarrow> (color_stop \<times> color_stop) option" where
  "find_stops n (c1 # c2 # cs) =
     (if jge n (cp_pos c1) \<and> jle n (cp_pos c2) then Some (c1, c2)
      else find_stops n (c2 # cs))"
| "find_stops n _ = None"

definition channel :: "jsnum \<Rightarrow> jsnum \<Rightarrow> jsnum \<Rightarrow> jsnum" where
  "channel c1 c2 factor = jround (jadd c1 (jmul (jsub c2 c1) factor))"

definition getColorForFlow :: "jsnum \<Rightarrow> jsnum \<Rightarrow> jsnum \<Rightarrow> css_color" where
  "getColorForFlow minFlowValue maxFlowValue v =
     (if jle v (Fin 0) then Literal ''#94a3b8''
      else
        let n = normalized minFlowValue maxFlowValue v;
            (color1, color2) =
               (case find_stops n colors of
                  Some p \<Rightarrow> p
                | None \<Rightarrow> (colors ! 0, colors ! 1));
            range = jsub (cp_pos color2) (cp_pos color1);
            factor = jdiv (jsub n (cp_pos color1)) range
        in RgbTemplate (channel (cp_r color1) (cp_r color2) factor)
                       (channel (cp_g color1) (cp_g color2) factor)
                       (channel (cp_b color1) (cp_b color2) factor))"

definition getWidthForFlow :: "jsnum \<Rightarrow> jsnum \<Rightarrow> jsnum \<Rightarrow> jsnum" where
  "getWidthForFlow minFlowValue maxFlowValue v =
     (if jle v (Fin 0) then Fin 1
      else jadd (Fin 1) (jmul (normalized minFlowValue maxFlowValue v) (Fin 7)))"

text \<open>
  The two functions of the same names in the other source file, transcribed on their
  own: the quotient and the three channels written out in place, and the search as the
  index loop over the array.
\<close>

function stop_index_from :: "jsnum \<Rightarrow> color_stop list \<Rightarrow> nat \<Rightarrow> nat option" where
  "stop_index_from n cs i =
     (if i < length cs - 1 then
        (if jge n (cp_pos (cs ! i)) \<and> jle n (cp_pos (cs ! (i + 1))) then Some i
         else stop_index_from n cs (i + 1))
      else None)"
  by pat_completeness auto
termination
  by (relation "measure (\<lambda>(n, cs, i). length cs - 1 - i)") auto

definition getColorForFlow_part000 :: "jsnum \<Rightarrow> jsnum \<Rightarrow> jsnum \<Rightarrow> css_color" where
  "getColorForFlow_part000 minFlowValue maxFlowValue v =
     (if jle v (Fin 0) then Literal ''#94a3b8''
      else
        let n = jdiv (jsub (jlog (jadd v (Fin 1))) (jlog (jadd minFlowValue (Fin 1))))
                     (jsub (jlog (jadd maxFlowValue (Fin 1))) (jlog (jadd minFlowValue (Fin 1))));
            cs = [\<lparr>cp_pos = Fin 0, cp_r = Fin 59, cp_g = Fin 130, cp_b = Fin 246\<rparr>,
                  \<lparr>cp_pos = Fin (1 / 4), cp_r = Fin 6, cp_g = Fin 182, cp_b = Fin 212\<rparr>,
                  \<lparr>cp_pos = Fin (1 / 2), cp_r = Fin 16, cp_g = Fin 185, cp_b = Fin 129\<rparr>,
                  \<lparr>cp_pos = Fin (3 / 4), cp_r = Fin 245, cp_g = Fin 158, cp_b = Fin 11\<rparr>,
                  \<lparr>cp_pos = Fin 1, cp_r = Fin 239, cp_g = Fin 68, cp_b = Fin 68\<rparr>];
            i = (case stop_index_from n cs 0 of Some j \<Rightarrow> j | None \<Rightarrow> 0);
            color1 = cs ! i;
            color2 = cs ! (i + 1);
            range = jsub (cp_pos color2) (cp_pos color1);
            factor = jdiv (jsub n (cp_pos color1)) range;
            r = jround (jadd (cp_r color1) (jmul (jsub (cp_r color2) (cp_r color1)) factor));
            g = jround (jadd (cp_g color1) (jmul (jsub (cp_g color2) (cp_g color1)) factor));
            b = jround (jadd (cp_b color1) (jmul (jsub (cp_b color2) (cp_b color1)) factor))
        in RgbTemplate r g b)"

definition getWidthForFlow_part000 :: "jsnum \<Rightarrow> jsnum \<Rightarrow> jsnum \<Rightarrow> jsnum" where
  "getWidthForFlow_part000 minFlowValue maxFlowValue v =
     (if jle v (Fin 0) then Fin 1
      else
        let n = jdiv (jsub (jlog (jadd v (Fin 1))) (jlog (jadd minFlowValue (Fin 1))))
                     (jsub (jlog (jadd maxFlowValue (Fin 1))) (jlog (jadd minFlowValue (Fin 1))))
        in jadd (Fin 1) (jmul n (Fin 7)))"

section \<open>Module state\<close>

text \<open>
  The module-level variables of \<open>main.js\<close>, and the two pieces of the page they act
  on: the browser's queue of pending timeouts of \<open>animate\<close> (identifier and delay; the
  identifiers \<open>setTimeout\<close> returns are positive) and the chart \<open>Plotly.newPlot\<close> drew
  last.  \<open>resampleInterval\<close> is a field of \<open>plotState\<close> in the older version only.  A
  series table is an object of objects: time index to feature id to value.
\<close>

type_synonym series_row = "string \<rightharpoonup> jsnum"
type_synonym series_table = "int \<rightharpoonup> series_row"

text \<open>
  A value read from a slice of a series table is a number or, when the name read is not
  a key of the slice but a property every object inherits, a function or object
  (\<open>Inherited\<close>); see the reads below.
\<close>

datatype jsval = Num jsnum | Inherited

datatype variable = Flow | Velocity | Depth

datatype axis = TimeStrings "string list" | StepNumbers "int list"

record trace =
  trace_x :: axis
  trace_y :: "jsval list"
  trace_name :: variable

record plot_state =
  flowpathId :: "string option"
  visible_flow :: bool
  visible_velocity :: bool
  visible_depth :: bool
  resampleInterval :: int

record globals =
  featureIds :: "string list"
  timeSteps :: "string list"
  currentTimeIndex :: int
  isPlaying :: bool
  animationFrame :: "nat option"
  flowData :: series_table
  velocityData :: series_table
  depthData :: series_table
  maxFlowValue :: jsnum
  minFlowValue :: jsnum
  hoveredFeatureId :: "string option"
  plotState :: plot_state
  timers :: "(nat \<times> jsnum) list"
  timerCount :: nat
  chart :: "trace list option"

definition initial_globals :: globals where
  "initial_globals =
     \<lparr>featureIds = [], timeSteps = [], currentTimeIndex = 0, isPlaying = False,
      animationFrame = None, flowData = Map.empty, velocityData = Map.empty,
      depthData = Map.empty, maxFlowValue = Fin 0, minFlowValue = PosInf,
      hoveredFeatureId = None,
      plotState = \<lparr>flowpathId = None, visible_flow = True, visible_velocity = True,
                    visible_depth = True, resampleInterval = 1\<rparr>,
      timers = [], timerCount = 0, chart = None\<rparr>"

datatype js_error = TypeError

section \<open>Identifier normalizer and series store\<close>

text \<open>
  \<open>idStr.startsWith("wb-") ? idStr : `wb-${idStr}`\<close>, on the string \<open>String(featureId)\<close>;
  identifiers are modelled as strings already.
\<close>

definition normalize :: "string \<Rightarrow> string" where
  "normalize idStr = (if take 3 idStr = ''wb-'' then idStr else ''wb-'' @ idStr)"

text \<open>An array read: \<open>undefined\<close> (\<open>None\<close>) past the end.\<close>

definition nth_opt :: "'a list \<Rightarrow> nat \<Rightarrow> 'a option" where
  "nth_opt xs i = (if i < length xs then Some (xs ! i) else None)"

text \<open>
  The decoded datasets handed to \<open>processDataAndVisualize\<close>.  A matrix that is \<open>null\<close> or
  missing is \<open>None\<close>; \<open>num_times\<close> and \<open>num_features\<close> are fields of their own, which the
  code trusts without comparing them with the arrays.
\<close>

record netcdfData =
  time_steps :: "string list"
  feature_ids :: "string list"
  flow :: "jsnum list list option"
  velocity :: "jsnum list list option"
  depth :: "jsnum list list option"
  num_times :: nat
  num_features :: nat

record geopackageData =
  gpkg_feature_ids :: "string list"

text \<open>
  \<open>table[t][id] = v\<close>.  The slice \<open>table[t]\<close> is always there when the loader writes a
  cell: it is created at the top of the same iteration.
\<close>

definition put_cell :: "series_table \<Rightarrow> int \<Rightarrow> string \<Rightarrow> jsnum \<Rightarrow> series_table" where
  "put_cell tbl t k v =
     (case tbl t of Some row \<Rightarrow> tbl(t \<mapsto> row(k \<mapsto> v)) | None \<Rightarrow> tbl)"

text \<open>\<open>arr && arr[t] && arr[t][f]\<close>, as a number or nothing.\<close>

definition cell :: "jsnum list list option \<Rightarrow> nat \<Rightarrow> nat \<Rightarrow> jsnum option" where
  "cell arr t f =
     (case arr of None \<Rightarrow> None
      | Some m \<Rightarrow> (case nth_opt m t of None \<Rightarrow> None | Some row \<Rightarrow> nth_opt row f))"

text \<open>The body of the inner loop, for time index \<open>t\<close> and feature index \<open>f\<close>.\<close>

definition load_cell :: "netcdfData \<Rightarrow> nat \<Rightarrow> nat \<Rightarrow> globals \<Rightarrow> globals" where
  "load_cell nc t f s =
     (let idStr = (case nth_opt (feature_ids nc) f of Some i \<Rightarrow> i | None \<Rightarrow> ''undefined'');
          flowId = normalize idStr;
          flowValue = or_zero (cell (flow nc) t f);
          s1 = s\<lparr>flowData := put_cell (flowData s) (int t) flowId flowValue\<rparr>;
          s2 = (if velocity nc \<noteq> None \<and> nth_opt (the (velocity nc)) t \<noteq> None
                then s1\<lparr>velocityData :=
                         put_cell (velocityData s1) (int t) flowId (or_zero (cell (velocity nc) t f))\<rparr>
                else s1);
          s3 = (if depth nc \<noteq> None \<and> nth_opt (the (depth nc)) t \<noteq> None
                then s2\<lparr>depthData :=
                         put_cell (depthData s2) (int t) flowId (or_zero (cell (depth nc) t f))\<rparr>
                else s2);
          s4 = (if jgt flowValue (maxFlowValue s3) then s3\<lparr>maxFlowValue := flowValue\<rparr> else s3)
      in if jlt flowValue (minFlowValue s4) \<and> jgt flowValue (Fin 0)
         then s4\<lparr>minFlowValue := flowValue\<rparr> else s4)"

text \<open>The body of the outer loop, for time index \<open>t\<close>.\<close>

definition load_slice :: "netcdfData \<Rightarrow> nat \<Rightarrow> globals \<Rightarrow> globals" where
  "load_slice nc t s =
     (let s1 = s\<lparr>flowData := (flowData s)(int t \<mapsto> Map.empty)\<rparr>;
          s2 = (if velocity nc \<noteq> None
                then s1\<lparr>velocityData := (velocityData s1)(int t \<mapsto> Map.empty)\<rparr> else s1);
          s3 = (if depth nc \<noteq> None
                then s2\<lparr>depthData := (depthData s2)(int t \<mapsto> Map.empty)\<rparr> else s2)
      in fold (load_cell nc t) [0..<num_features nc] s3)"

text \<open>
  \<open>processDataAndVisualize\<close>, as far as the module-level variables go (the file status,
  the map bounds and the set-up of the layers write none of them).
\<close>

definition processDataAndVisualize :: "geopackageData \<Rightarrow> netcdfData \<Rightarrow> globals \<Rightarrow> globals" where
  "processDataAndVisualize gp nc s =
     fold (load_slice nc) [0..<num_times nc]
       (s\<lparr>featureIds := gpkg_feature_ids gp, timeSteps := time_steps nc,
          maxFlowValue := Fin 0, minFlowValue := PosInf,
          flowData := Map.empty, velocityData := Map.empty, depthData := Map.empty\<rparr>)"

text \<open>
  A slice is an object literal \<open>{}\<close>, so a read \<open>slice[id]\<close> finds the slice's own
  property or else a property of \<open>Object.prototype\<close>, and is \<open>undefined\<close> only when the
  name is in neither.  The inherited properties are functions (and, for \<open>__proto__\<close>, the
  prototype object): values that are not numbers and are truthy.  The loader never
  writes one of these names, since every key it writes starts with \<open>wb-\<close>.
\<close>

definition object_prototype_names :: "string list" where
  "object_prototype_names =
     [''constructor'', ''__defineGetter__'', ''__defineSetter__'', ''hasOwnProperty'',
      ''__lookupGetter__'', ''__lookupSetter__'', ''isPrototypeOf'', ''propertyIsEnumerable'',
      ''toString'', ''valueOf'', ''__proto__'', ''toLocaleString'']"

text \<open>\<open>slice[id] || 0\<close>\<close>

definition read_or_zero :: "series_row \<Rightarrow> string \<Rightarrow> jsval" where
  "read_or_zero row k =
     (case row k of
        Some v \<Rightarrow> Num (or_zero (Some v))
      | None \<Rightarrow> if k \<in> set object_prototype_names then Inherited else Num (Fin 0))"

text \<open>
  The lenient read of \<open>updateHoverPopupContent\<close>: \<open>table[t]?.[id] || 0\<close>.
\<close>

definition hover_value :: "series_table \<Rightarrow> int \<Rightarrow> string \<Rightarrow> jsval" where
  "hover_value tbl t k = (case tbl t of None \<Rightarrow> Num (Fin 0) | Some row \<Rightarrow> read_or_zero row k)"


text \<open>
  The read of \<open>updatePlot\<close>, \<open>flowData[t][flowpathId] || 0\<close>: reading a property of
  \<open>undefined\<close> throws a \<open>TypeError\<close>.
\<close>

definition plot_value :: "series_table \<Rightarrow> int \<Rightarrow> string \<Rightarrow> js_error + jsval" where
  "plot_value tbl t k =
     (case tbl t of None \<Rightarrow> Inl TypeError | Some row \<Rightarrow> Inr (read_or_zero row k))"

section \<open>Playback scheduler\<close>

text \<open>
  \<open>animate\<close> is the closure of \<open>playAnimation\<close>; its \<open>frameDelay\<close> is a parameter here.  The
  calls it makes between the index update and \<open>setTimeout\<close> (\<open>updateVisualization\<close>, the
  slider, \<open>updateTimeDisplay\<close>) write no module-level variable and are taken to return.
  \<open>setTimeout\<close> hands out the next positive identifier and queues the callback.
\<close>

definition animate :: "jsnum \<Rightarrow> globals \<Rightarrow> globals" where
  "animate frameDelay s =
     (if \<not> isPlaying s then s
      else
        let i = currentTimeIndex s + 1;
            i' = (if i \<ge> int (length (timeSteps s)) then 0 else i);
            tid = Suc (timerCount s)
        in s\<lparr>currentTimeIndex := i', animationFrame := Some tid,
             timers := timers s @ [(tid, frameDelay)], timerCount := tid\<rparr>)"

text \<open>\<open>speed\<close> is the number parsed from the speed selector.\<close>

definition playAnimation :: "jsnum \<Rightarrow> globals \<Rightarrow> globals" where
  "playAnimation speed s = animate (jdiv (Fin 100) speed) (s\<lparr>isPlaying := True\<rparr>)"

definition clearTimeout :: "nat \<Rightarrow> globals \<Rightarrow> globals" where
  "clearTimeout tid s = s\<lparr>timers := filter (\<lambda>(i, d). i \<noteq> tid) (timers s)\<rparr>"

text \<open>\<open>if (animationFrame)\<close>: \<open>null\<close> and the number \<open>0\<close> are falsy.\<close>

definition pauseAnimation :: "globals \<Rightarrow> globals" where
  "pauseAnimation s =
     (let s1 = s\<lparr>isPlaying := False\<rparr>
      in case animationFrame s1 of
           None \<Rightarrow> s1
         | Some tid \<Rightarrow>
             if tid = 0 then s1 else (clearTimeout tid s1)\<lparr>animationFrame := None\<rparr>)"

text \<open>
  The browser runs the pending timeout \<open>tid\<close>: it leaves the queue and its callback
  runs.  A timeout that is not pending (never set, already run, or cleared) cannot run.
  Time itself is not modelled: a pending timeout may run at any moment, which covers
  every moment its delay allows.
\<close>

definition fire :: "nat \<Rightarrow> globals \<Rightarrow> globals" where
  "fire tid s =
     (case map_of (timers s) tid of
        None \<Rightarrow> s
      | Some frameDelay \<Rightarrow> animate frameDelay (clearTimeout tid s))"

section \<open>Resampling and the series inspector\<close>

text \<open>\<open>Array.prototype.slice(start, end)\<close> with integer arguments.\<close>

definition js_slice :: "'a list \<Rightarrow> int \<Rightarrow> int \<Rightarrow> 'a list" where
  "js_slice xs start fin =
     (let len = int (length xs);
          k = (if start < 0 then max (len + start) 0 else min start len);
          final = (if fin < 0 then max (len + fin) 0 else min fin len)
      in take (nat (final - k)) (drop (nat k) xs))"

text \<open>
  \<open>slice.reduce((a, b) => a + b, 0) / slice.length\<close>.  With a function or an object as
  an operand \<open>+\<close> concatenates strings, and so does every later \<open>+\<close>; the text that
  results is not a numeral, and dividing it gives \<open>NaN\<close>.
\<close>

datatype reduce_acc = AccNum jsnum | AccText

fun plus_acc :: "reduce_acc \<Rightarrow> jsval \<Rightarrow> reduce_acc" where
  "plus_acc (AccNum a) (Num b) = AccNum (dadd a b)"
| "plus_acc _ _ = AccText"

definition slice_avg :: "jsval list \<Rightarrow> jsnum" where
  "slice_avg slice =
     (case foldl plus_acc (AccNum (Fin 0)) slice of
        AccNum acc \<Rightarrow> ddiv acc (Fin (real (length slice)))
      | AccText \<Rightarrow> NaN)"

text \<open>
  The loop of \<open>resampleData\<close>, \<open>for (i = 0; i < data.length; i += interval)\<close>.  It does
  not end when \<open>interval\<close> is zero or negative and \<open>data\<close> is not empty: no result then.
\<close>

partial_function (option) resample_loop ::
  "jsval list \<Rightarrow> int \<Rightarrow> int \<Rightarrow> jsval list \<Rightarrow> jsval list option" where
  "resample_loop data interval i resampled =
     (if i < int (length data)
      then resample_loop data interval (i + interval)
             (resampled @ [Num (slice_avg (js_slice data i (i + interval)))])
      else Some resampled)"

definition resampleData :: "jsval list \<Rightarrow> int \<Rightarrow> jsval list option" where
  "resampleData data interval =
     (if interval = 1 then Some data else resample_loop data interval 0 [])"

text \<open>
  The resampling engine in the words of its specification, for a series of numbers:
  consecutive blocks of size \<open>k\<close>, the last one possibly shorter, each replaced by its
  mean.  The mean is taken as double arithmetic takes it: the sum from the left,
  starting at 0 and rounded after every addition, over the number of elements, rounded.
\<close>

function spec_blocks :: "nat \<Rightarrow> 'a list \<Rightarrow> 'a list list" where
  "spec_blocks k xs =
     (if k = 0 \<or> xs = [] then [] else take k xs # spec_blocks k (drop k xs))"
  by pat_completeness auto
termination
  by (relation "measure (\<lambda>(k, xs). length xs)") auto

declare spec_blocks.simps [simp del]

definition float_mean :: "jsnum list \<Rightarrow> jsnum" where
  "float_mean blk = ddiv (foldl dadd (Fin 0) blk) (Fin (real (length blk)))"

definition spec_resample :: "jsnum list \<Rightarrow> nat \<Rightarrow> jsnum list" where
  "spec_resample series k = (if k = 1 then series else map float_mean (spec_blocks k series))"

text \<open>
  The loop of \<open>updatePlot\<close> over the time axis (the same in both versions), with the
  three arrays it fills.  A missing flow slice throws; a missing velocity or depth slice
  is skipped.
\<close>

fun plot_series ::
  "globals \<Rightarrow> string \<Rightarrow> nat list \<Rightarrow> jsval list \<times> jsval list \<times> jsval list
     \<Rightarrow> js_error + (jsval list \<times> jsval list \<times> jsval list)" where
  "plot_series s fid [] acc = Inr acc"
| "plot_series s fid (t # ts) (flowValues, velocityValues, depthValues) =
     (case plot_value (flowData s) (int t) fid of
        Inl e \<Rightarrow> Inl e
      | Inr fv \<Rightarrow>
          plot_series s fid ts
            (flowValues @ [fv],
             (case velocityData s (int t) of
                None \<Rightarrow> velocityValues
              | Some row \<Rightarrow> velocityValues @ [read_or_zero row fid]),
             (case depthData s (int t) of
                None \<Rightarrow> depthValues
              | Some row \<Rightarrow> depthValues @ [read_or_zero row fid])))"

text \<open>The traces pushed for the visible variables.\<close>

definition traces_of ::
  "plot_state \<Rightarrow> axis \<Rightarrow> jsval list \<Rightarrow> jsval list \<Rightarrow> jsval list \<Rightarrow> trace list" where
  "traces_of ps time_axis fl vel dep =
     (if visible_flow ps then [\<lparr>trace_x = time_axis, trace_y = fl, trace_name = Flow\<rparr>] else []) @
     (if visible_velocity ps \<and> vel \<noteq> []
      then [\<lparr>trace_x = time_axis, trace_y = vel, trace_name = Velocity\<rparr>] else []) @
     (if visible_depth ps \<and> dep \<noteq> []
      then [\<lparr>trace_x = time_axis, trace_y = dep, trace_name = Depth\<rparr>] else [])"



text \<open>
  \<open>updatePlot\<close> of the older version: each series goes through \<open>resampleData\<close> and is
  drawn against the step numbers \<open>idx * interval\<close>.  No result when a resampling loop
  does not end.
\<close>

definition updatePlot_part000 :: "globals \<Rightarrow> (js_error + globals) option" where
  "updatePlot_part000 s =
     (case flowpathId (plotState s) of
        None \<Rightarrow> Some (Inr s)
      | Some fid \<Rightarrow>
          if fid = [] then Some (Inr s)
          else
            let interval = resampleInterval (plotState s)
            in (case plot_series s fid [0..<length (timeSteps s)] ([], [], []) of
                  Inl e \<Rightarrow> Some (Inl e)
                | Inr (flowValues, velocityValues, depthValues) \<Rightarrow>
                    Option.bind (resampleData flowValues interval) (\<lambda>resampledFlow.
                    Option.bind (if velocityValues \<noteq> [] then resampleData velocityValues interval
                                 else Some []) (\<lambda>resampledVelocity.
                    Option.bind (if depthValues \<noteq> [] then resampleData depthValues interval
                                 else Some []) (\<lambda>resampledDepth.
                      let time_axis = map (\<lambda>idx. int idx * interval) [0..<length resampledFlow]
                      in Some (Inr (s\<lparr>chart := Some (traces_of (plotState s) (StepNumbers time_axis)
                                       resampledFlow resampledVelocity resampledDepth)\<rparr>)))))))"

section \<open>Auxiliary definitions\<close>

text \<open>
  The template branch of \<open>getColorForFlow\<close> as a function of the value of \<open>normalized\<close>.
\<close>

definition color_of :: "jsnum \<Rightarrow> css_color" where
  "color_of n = (let (color1, color2) =
               (case find_stops n colors of
                  Some p \<Rightarrow> p
                | None \<Rightarrow> (colors ! 0, colors ! 1));
            range = jsub (cp_pos color2) (cp_pos color1);
            factor = jdiv (jsub n (cp_pos color1)) range
        in RgbTemplate (channel (cp_r color1) (cp_r color2) factor)
                       (channel (cp_g color1) (cp_g color2) factor)
                       (channel (cp_b color1) (cp_b color2) factor))"

text \<open>The range as a load resets it.\<close>

definition blank :: "globals \<Rightarrow> bool" where
  "blank s = (maxFlowValue s = Fin 0 \<and> minFlowValue s = PosInf)"

text \<open>
  The part of the state the flow table and the range live in, and the loader's two loop
  bodies restricted to it: what the loader does to these three variables does not
  depend on the velocity and depth matrices.
\<close>

definition flow_core :: "globals \<Rightarrow> series_table \<times> jsnum \<times> jsnum" where
  "flow_core s = (flowData s, maxFlowValue s, minFlowValue s)"

definition cell_core :: "netcdfData \<Rightarrow> nat \<Rightarrow> nat \<Rightarrow> series_table \<times> jsnum \<times> jsnum
    \<Rightarrow> series_table \<times> jsnum \<times> jsnum" where
  "cell_core nc t f c =
     (case c of (tbl, mx, mn) \<Rightarrow>
        let flowId = normalize (case nth_opt (feature_ids nc) f of Some i \<Rightarrow> i | None \<Rightarrow> ''undefined'');
            flowValue = or_zero (cell (flow nc) t f);
            mx' = (if jgt flowValue mx then flowValue else mx)
        in (put_cell tbl (int t) flowId flowValue, mx',
            if jlt flowValue mn \<and> jgt flowValue (Fin 0) then flowValue else mn))"

definition slice_core :: "netcdfData \<Rightarrow> nat \<Rightarrow> series_table \<times> jsnum \<times> jsnum
    \<Rightarrow> series_table \<times> jsnum \<times> jsnum" where
  "slice_core nc t c =
     (case c of (tbl, mx, mn) \<Rightarrow>
        fold (cell_core nc t) [0..<num_features nc] (tbl(int t \<mapsto> Map.empty), mx, mn))"

text \<open>A state with three time steps, the index at 0 and nothing playing.\<close>

definition three_steps :: globals where
  "three_steps = initial_globals\<lparr>timeSteps := [''t0'', ''t1'', ''t2'']\<rparr>"

text \<open>An open plot on three time steps, resampled with interval 2.\<close>

definition plot_example :: globals where
  "plot_example =
     initial_globals
       \<lparr>timeSteps := [''2024-01-01T00:00'', ''2024-01-01T01:00'', ''2024-01-01T02:00''],
        currentTimeIndex := 1,
        flowData := [0 \<mapsto> [''wb-1'' \<mapsto> Fin 10], 1 \<mapsto> [''wb-1'' \<mapsto> Fin 20],
                     2 \<mapsto> [''wb-1'' \<mapsto> Fin 30]],
        plotState := \<lparr>flowpathId = Some ''wb-1'', visible_flow = True, visible_velocity = True,
                       visible_depth = True, resampleInterval = 2\<rparr>\<rparr>"


section \<open>The two versions of the mapper agree\<close>

lemma find_stops_short: "length xs \<le> 1 \<Longrightarrow> find_stops n xs = None"
  by (cases xs; cases "tl xs") auto

lemma stop_index_from_find_stops:
  "map_option (\<lambda>j. (cs ! j, cs ! (j + 1))) (stop_index_from n cs i) = find_stops n (drop i cs)"
proof (induction n cs i rule: stop_index_from.induct)
  case (1 n cs i)
  show ?case
  proof (cases "i < length cs - 1")
    case True
    then have d: "drop i cs = cs ! i # cs ! (i + 1) # drop (i + 2) cs"
      by (metis Cons_nth_drop_Suc Suc_eq_plus1 Suc_lessD add_2_eq_Suc' less_diff_conv)
    have d1: "drop (i + 1) cs = cs ! (i + 1) # drop (i + 2) cs"
      using True by (metis Cons_nth_drop_Suc Suc_eq_plus1 add_2_eq_Suc' less_diff_conv)
    show ?thesis
      using 1 True d d1 by (subst stop_index_from.simps) (auto simp del: stop_index_from.simps)
  next
    case False
    then have "length (drop i cs) \<le> 1" by simp
    then have "find_stops n (drop i cs) = None"
      by (rule find_stops_short)
    then show ?thesis using False by (subst stop_index_from.simps) simp
  qed
qed

text \<open>
  C10.  For every value and every pair \<open>minFlowValue\<close>, \<open>maxFlowValue\<close>, the functions
  \<open>getColorForFlow\<close> and \<open>getWidthForFlow\<close> of \<open>main.js\<close> return the same colour and the
  same width as the functions of the same names in the other source file.
\<close>

theorem mapper_versions_agree:
  "getColorForFlow mn mx v = getColorForFlow_part000 mn mx v \<and>
   getWidthForFlow mn mx v = getWidthForFlow_part000 mn mx v"
proof -
  have "getWidthForFlow_part000 mn mx v = getWidthForFlow mn mx v"
    by (simp add: getWidthForFlow_part000_def getWidthForFlow_def normalized_def)
  moreover have "getColorForFlow_part000 mn mx v = getColorForFlow mn mx v"
    using stop_index_from_find_stops[of colors "normalized mn mx v" 0]
    unfolding getColorForFlow_part000_def getColorForFlow_def Let_def channel_def
      normalized_def[symmetric] colors_def[symmetric]
    by (cases "stop_index_from (normalized mn mx v) colors 0") (auto simp: colors_def)
  ultimately show ?thesis by simp
qed

text \<open>At the top of the range \<open>0..100\<close> both versions give width 8 and the last stop's red.\<close>

theorem mapper_versions_agree_witness:
  "getWidthForFlow (Fin 0) (Fin 100) (Fin 100) = getWidthForFlow_part000 (Fin 0) (Fin 100) (Fin 100) \<and>
   getWidthForFlow_part000 (Fin 0) (Fin 100) (Fin 100) = Fin 8 \<and>
   getColorForFlow (Fin 0) (Fin 100) (Fin 100) = getColorForFlow_part000 (Fin 0) (Fin 100) (Fin 100) \<and>
   getColorForFlow (Fin 0) (Fin 100) (Fin 100) = RgbTemplate (Fin 239) (Fin 68) (Fin 68)"
  using mapper_versions_agree[of "Fin 0" "Fin 100" "Fin 100"]
  by (simp add: getWidthForFlow_def getColorForFlow_def normalized_def jle_def jeq_def jsub_def
      jge_def colors_def channel_def)

section \<open>Identifier normalization\<close>

text \<open>
  C8.  Normalization is total and idempotent: an identifier that starts with \<open>wb-\<close> is
  returned unchanged, any other gets \<open>wb-\<close> prepended, and normalizing twice is
  normalizing once.
\<close>

theorem normalize_idempotent:
  "normalize (normalize x) = normalize x \<and>
   (take 3 x = ''wb-'' \<longrightarrow> normalize x = x) \<and>
   (take 3 x \<noteq> ''wb-'' \<longrightarrow> normalize x = ''wb-'' @ x)"
  by (simp add: normalize_def)

theorem normalize_idempotent_witness:
  "take 3 ''wb-2'' = ''wb-'' \<and> normalize ''wb-2'' = ''wb-2'' \<and>
   take 3 ''1'' \<noteq> ''wb-'' \<and> normalize ''1'' = ''wb-1'' \<and> normalize (normalize ''1'') = ''wb-1''"
  using normalize_idempotent[of "''wb-2''"] normalize_idempotent[of "''1''"]
  by (simp add: normalize_def)

section \<open>The mapper on a degenerate range\<close>

lemma jsub_self: "jsub a a = Fin 0 \<or> jsub a a = NaN"
  by (cases a) (simp_all add: jsub_def)

lemma jdiv_by_zero: "jdiv x (Fin 0) = NaN \<or> jdiv x (Fin 0) = PosInf \<or> jdiv x (Fin 0) = NegInf"
  by (cases x) simp_all

lemma jdiv_by_NaN: "jdiv x NaN = NaN"
  by (cases x) simp_all

lemma jgt_zero_not_jle: "jgt v (Fin 0) \<Longrightarrow> \<not> jle v (Fin 0)"
  by (cases v) (simp_all add: jgt_def jle_def jeq_def)

lemma normalized_degenerate:
  assumes "jeq mn mx"
  shows "normalized mn mx v = NaN \<or> normalized mn mx v = PosInf \<or> normalized mn mx v = NegInf"
proof -
  from assms have eq: "mx = mn" by (simp add: jeq_def)
  show ?thesis
    unfolding normalized_def eq
    using jsub_self[of "jlog (jadd mn (Fin 1))"]
      jdiv_by_zero[of "jsub (jlog (jadd v (Fin 1))) (jlog (jadd mn (Fin 1)))"]
    by (auto simp: jdiv_by_NaN)
qed

lemma width_of_NaN: "jadd (Fin 1) (jmul NaN (Fin 7)) = NaN"
  and width_of_PosInf: "jadd (Fin 1) (jmul PosInf (Fin 7)) = PosInf"
  and width_of_NegInf: "jadd (Fin 1) (jmul NegInf (Fin 7)) = NegInf"
  by (simp_all add: inf_times_def)

lemma color_of_NaN: "color_of NaN = RgbTemplate NaN NaN NaN"
  by (simp add: color_of_def colors_def jge_def jle_def jeq_def jsub_def channel_def)

lemma color_of_PosInf: "color_of PosInf = RgbTemplate NegInf PosInf NegInf"
  by (simp add: color_of_def colors_def jge_def jle_def jeq_def jsub_def channel_def inf_times_def)

lemma color_of_NegInf: "color_of NegInf = RgbTemplate PosInf NegInf PosInf"
  by (simp add: color_of_def colors_def jge_def jle_def jeq_def jsub_def channel_def inf_times_def)

lemma getColorForFlow_color_of:
  "getColorForFlow mn mx v = (if jle v (Fin 0) then Literal ''#94a3b8'' else color_of (normalized mn mx v))"
  by (simp add: getColorForFlow_def color_of_def Let_def)

text \<open>
  C3, as the code has it.  For every value \<open>> 0\<close> and every range with
  \<open>max == min\<close>, the quotient is taken with a zero (or \<open>NaN\<close>) divisor and is not replaced
  by \<open>1.0\<close>: \<open>normalized\<close> is \<open>NaN\<close>, \<open>Infinity\<close> or \<open>-Infinity\<close>; the width is
  \<open>1 + normalized * 7\<close>, one of these three values again and never 8; the colour comes
  from the fallback pair of stops with all three channels \<open>NaN\<close> or infinite, never the
  last stop's red.
\<close>

theorem degenerate_range_not_finite:
  assumes "jgt v (Fin 0)" and "jeq mn mx"
  shows "\<not> is_fin (normalized mn mx v) \<and>
         getWidthForFlow mn mx v = jadd (Fin 1) (jmul (normalized mn mx v) (Fin 7)) \<and>
         getWidthForFlow mn mx v \<in> {NaN, PosInf, NegInf} \<and>
         getColorForFlow mn mx v \<in>
           {RgbTemplate NaN NaN NaN, RgbTemplate NegInf PosInf NegInf,
            RgbTemplate PosInf NegInf PosInf}"
proof -
  have pos: "\<not> jle v (Fin 0)" using assms(1) by (rule jgt_zero_not_jle)
  have w: "getWidthForFlow mn mx v = jadd (Fin 1) (jmul (normalized mn mx v) (Fin 7))"
    using pos by (simp add: getWidthForFlow_def)
  have c: "getColorForFlow mn mx v = color_of (normalized mn mx v)"
    using pos by (simp add: getColorForFlow_color_of)
  from normalized_degenerate[OF assms(2), of v]
  consider "normalized mn mx v = NaN" | "normalized mn mx v = PosInf" | "normalized mn mx v = NegInf"
    by blast
  then show ?thesis
  proof cases
    case 1
    then show ?thesis using w c by (simp add: is_fin_def color_of_NaN)
  next
    case 2
    then show ?thesis using w c by (simp add: is_fin_def color_of_PosInf inf_times_def)
  next
    case 3
    then show ?thesis using w c by (simp add: is_fin_def color_of_NegInf inf_times_def)
  qed
qed

theorem degenerate_range_not_finite_witness:
  "jgt (Fin 7) (Fin 0) \<and> jeq (Fin 5) (Fin 5) \<and>
   getWidthForFlow (Fin 5) (Fin 5) (Fin 7) = PosInf \<and>
   getColorForFlow (Fin 5) (Fin 5) (Fin 7) = RgbTemplate NegInf PosInf NegInf"
proof -
  have a: "jgt (Fin 7) (Fin 0)" by (simp add: jgt_def)
  have b: "jeq (Fin 5) (Fin 5)" by (simp add: jeq_def)
  have n: "normalized (Fin 5) (Fin 5) (Fin 7) = PosInf"
    by (simp add: normalized_def jsub_def)
  from degenerate_range_not_finite[OF a b] n a b show ?thesis
    by (simp add: getColorForFlow_color_of color_of_PosInf jle_def jeq_def inf_times_def)
qed

text \<open>
  With \<open>minFlowValue = maxFlowValue = 5\<close> the value 5 is mapped to width \<open>NaN\<close> and colour
  \<open>rgb(NaN, NaN, NaN)\<close>, not to width 8 and \<open>rgb(239, 68, 68)\<close>.
\<close>

theorem degenerate_range_counterexample:
  "jgt (Fin 5) (Fin 0) \<and> jeq (Fin 5) (Fin 5) \<and>
   getWidthForFlow (Fin 5) (Fin 5) (Fin 5) = NaN \<and>
   getWidthForFlow (Fin 5) (Fin 5) (Fin 5) \<noteq> Fin 8 \<and>
   getColorForFlow (Fin 5) (Fin 5) (Fin 5) = RgbTemplate NaN NaN NaN \<and>
   getColorForFlow (Fin 5) (Fin 5) (Fin 5) \<noteq> RgbTemplate (Fin 239) (Fin 68) (Fin 68)"
proof -
  have n: "normalized (Fin 5) (Fin 5) (Fin 5) = NaN"
    by (simp add: normalized_def jsub_def)
  show ?thesis
    by (simp add: getWidthForFlow_def getColorForFlow_color_of n color_of_NaN jle_def jeq_def jgt_def)
qed

section \<open>Playback\<close>

text \<open>
  C6.  With at least one time step, a tick while playing leaves the index within the
  time axis, \<open>0 <= currentTimeIndex < numTimes\<close>; from an index within the time axis it
  moves it to \<open>(currentTimeIndex + 1) mod numTimes\<close>, wrapping to 0 and never clamping.
  The tick is either the call of \<open>animate\<close> or the run of a pending timeout.  With three
  time steps and the index at 2 a tick makes it 0.
\<close>

theorem tick_wraps:
  assumes "isPlaying s" and "1 \<le> length (timeSteps s)" and "0 \<le> currentTimeIndex s"
  shows "0 \<le> currentTimeIndex (animate frameDelay s) \<and>
         currentTimeIndex (animate frameDelay s) < int (length (timeSteps s)) \<and>
         isPlaying (animate frameDelay s) \<and>
         timeSteps (animate frameDelay s) = timeSteps s \<and>
         (currentTimeIndex s < int (length (timeSteps s)) \<longrightarrow>
            currentTimeIndex (animate frameDelay s)
              = (currentTimeIndex s + 1) mod int (length (timeSteps s)) \<and>
            (\<forall>tid d. map_of (timers s) tid = Some d \<longrightarrow>
               currentTimeIndex (fire tid s)
                 = (currentTimeIndex s + 1) mod int (length (timeSteps s))))"
proof -
  let ?n = "int (length (timeSteps s))"
  let ?i = "currentTimeIndex s"
  have idx: "currentTimeIndex (animate frameDelay s) = (if ?i + 1 \<ge> ?n then 0 else ?i + 1)"
    using assms(1) by (simp add: animate_def Let_def)
  have pos: "0 < ?n" using assms(2) by (cases "timeSteps s") simp_all
  have range: "0 \<le> currentTimeIndex (animate frameDelay s)"
    "currentTimeIndex (animate frameDelay s) < ?n"
    unfolding idx using assms(3) pos by simp_all
  have keep: "isPlaying (animate frameDelay s)" "timeSteps (animate frameDelay s) = timeSteps s"
    using assms(1) by (simp_all add: animate_def Let_def)
  have wrap: "currentTimeIndex (animate frameDelay s) = (?i + 1) mod ?n \<and>
      (\<forall>tid d. map_of (timers s) tid = Some d \<longrightarrow>
         currentTimeIndex (fire tid s) = (?i + 1) mod ?n)"
    if inside: "?i < ?n"
  proof -
    have m: "(?i + 1) mod ?n = (if ?i + 1 \<ge> ?n then 0 else ?i + 1)"
    proof (cases "?i + 1 \<ge> ?n")
      case True
      with inside have "?i + 1 = ?n" by simp
      then show ?thesis by simp
    next
      case False
      with assms(3) show ?thesis by simp
    qed
    have "currentTimeIndex (fire tid s) = (?i + 1) mod ?n"
      if "map_of (timers s) tid = Some d" for tid d
      using that assms(1) m by (simp add: fire_def animate_def clearTimeout_def Let_def)
    then show ?thesis using idx m by simp
  qed
  show ?thesis using range keep wrap by blast
qed

theorem tick_wraps_witness:
  "isPlaying (initial_globals\<lparr>timeSteps := [''t0'', ''t1'', ''t2''], currentTimeIndex := 2,
      isPlaying := True\<rparr>) \<and>
   currentTimeIndex (animate (Fin 100)
     (initial_globals\<lparr>timeSteps := [''t0'', ''t1'', ''t2''], currentTimeIndex := 2,
        isPlaying := True\<rparr>)) = 0"
  using tick_wraps[of "initial_globals\<lparr>timeSteps := [''t0'', ''t1'', ''t2''],
      currentTimeIndex := 2, isPlaying := True\<rparr>" "Fin 100"]
  by (simp add: initial_globals_def)

section \<open>The mapper on an empty dataset\<close>

lemma normalized_no_data:
  assumes "\<not> jle v (Fin 0)"
  shows "normalized PosInf (Fin 0) v = NaN"
proof (cases v)
  case (Fin a)
  with assms have "0 < a" by (simp add: jle_def jeq_def)
  with Fin show ?thesis by (simp add: normalized_def jsub_def)
qed (use assms in \<open>simp_all add: normalized_def jsub_def jle_def jeq_def\<close>)

lemma mapper_no_data_positive:
  assumes "\<not> jle v (Fin 0)"
  shows "getColorForFlow PosInf (Fin 0) v = RgbTemplate NaN NaN NaN \<and>
         getWidthForFlow PosInf (Fin 0) v = NaN"
  using assms
  by (simp add: getColorForFlow_color_of getWidthForFlow_def normalized_no_data color_of_NaN)

lemma mapper_neutral:
  assumes "jle v (Fin 0)"
  shows "getColorForFlow mn mx v = Literal ''#94a3b8'' \<and> getWidthForFlow mn mx v = Fin 1"
  using assms by (simp add: getColorForFlow_def getWidthForFlow_def)

lemma load_slice_no_features:
  assumes "num_features nc = 0" and "blank s"
  shows "blank (load_slice nc t s)"
  using assms by (auto simp: load_slice_def blank_def Let_def)

lemma fold_load_slice_no_features:
  assumes "num_features nc = 0" and "blank s"
  shows "blank (fold (load_slice nc) ts s)"
  using assms(2)
proof (induction ts arbitrary: s)
  case Nil
  then show ?case by simp
next
  case (Cons t ts)
  then show ?case using load_slice_no_features[OF assms(1)] by simp
qed

lemma empty_load_blank:
  assumes "num_times nc = 0 \<or> num_features nc = 0"
  shows "blank (processDataAndVisualize gp nc s)"
proof -
  let ?s0 = "s\<lparr>featureIds := gpkg_feature_ids gp, timeSteps := time_steps nc,
          maxFlowValue := Fin 0, minFlowValue := PosInf,
          flowData := Map.empty, velocityData := Map.empty, depthData := Map.empty\<rparr>"
  have b0: "blank ?s0" by (simp add: blank_def)
  from assms show ?thesis
  proof
    assume "num_times nc = 0"
    then show ?thesis using b0 by (simp add: processDataAndVisualize_def)
  next
    assume "num_features nc = 0"
    then show ?thesis
      unfolding processDataAndVisualize_def by (rule fold_load_slice_no_features[OF _ b0])
  qed
qed

text \<open>
  C4, as the code has it.  When the loaded dataset is empty (\<open>num_times = 0\<close> or
  \<open>num_features = 0\<close>) the range stays \<open>{min: Infinity, max: 0}\<close>.  The mapper has no
  test for this range: it returns the neutral style (\<open>#94a3b8\<close>, width 1) for every
  value \<open><= 0\<close> and for no other value; for any other value it returns
  \<open>rgb(NaN, NaN, NaN)\<close> and width \<open>NaN\<close>.
\<close>

theorem empty_dataset_style:
  assumes "num_times nc = 0 \<or> num_features nc = 0"
    and "s' = processDataAndVisualize gp nc s"
  shows "minFlowValue s' = PosInf \<and> maxFlowValue s' = Fin 0 \<and>
         (\<forall>v. jle v (Fin 0) \<longrightarrow>
            getColorForFlow (minFlowValue s') (maxFlowValue s') v = Literal ''#94a3b8'' \<and>
            getWidthForFlow (minFlowValue s') (maxFlowValue s') v = Fin 1) \<and>
         (\<forall>v. \<not> jle v (Fin 0) \<longrightarrow>
            getColorForFlow (minFlowValue s') (maxFlowValue s') v = RgbTemplate NaN NaN NaN \<and>
            getWidthForFlow (minFlowValue s') (maxFlowValue s') v = NaN)"
proof -
  have b: "blank s'" unfolding assms(2) using assms(1) by (rule empty_load_blank)
  then have mn: "minFlowValue s' = PosInf" and mx: "maxFlowValue s' = Fin 0"
    by (auto simp: blank_def)
  show ?thesis
    unfolding mn mx using mapper_neutral mapper_no_data_positive by blast
qed

theorem empty_dataset_style_witness:
  "num_features \<lparr>time_steps = [''2024-01-01T00:00'', ''2024-01-01T01:00''], feature_ids = [],
      flow = Some [[], []], velocity = None, depth = None, num_times = 2, num_features = 0\<rparr> = 0 \<and>
   minFlowValue (processDataAndVisualize \<lparr>gpkg_feature_ids = [''wb-1'']\<rparr>
     \<lparr>time_steps = [''2024-01-01T00:00'', ''2024-01-01T01:00''], feature_ids = [],
      flow = Some [[], []], velocity = None, depth = None, num_times = 2, num_features = 0\<rparr>
     initial_globals) = PosInf \<and>
   maxFlowValue (processDataAndVisualize \<lparr>gpkg_feature_ids = [''wb-1'']\<rparr>
     \<lparr>time_steps = [''2024-01-01T00:00'', ''2024-01-01T01:00''], feature_ids = [],
      flow = Some [[], []], velocity = None, depth = None, num_times = 2, num_features = 0\<rparr>
     initial_globals) = Fin 0 \<and>
   getWidthForFlow PosInf (Fin 0) (Fin 0) = Fin 1 \<and>
   getColorForFlow PosInf (Fin 0) (Fin 0) = Literal ''#94a3b8'' \<and>
   getWidthForFlow PosInf (Fin 0) (Fin 5) = NaN"
proof -
  let ?nc = "\<lparr>time_steps = [''2024-01-01T00:00'', ''2024-01-01T01:00''], feature_ids = [],
      flow = Some [[], []], velocity = None, depth = None, num_times = 2, num_features = 0\<rparr>"
  let ?gp = "\<lparr>gpkg_feature_ids = [''wb-1'']\<rparr>"
  have h: "num_times ?nc = 0 \<or> num_features ?nc = 0" by simp
  have le: "jle (Fin 0) (Fin 0)" "\<not> jle (Fin 5) (Fin 0)" by (simp_all add: jle_def jeq_def)
  note t = empty_dataset_style[OF h refl, of ?gp initial_globals]
  from t have mn: "minFlowValue (processDataAndVisualize ?gp ?nc initial_globals) = PosInf"
    and mx: "maxFlowValue (processDataAndVisualize ?gp ?nc initial_globals) = Fin 0"
    by blast+
  from t le have "getWidthForFlow PosInf (Fin 0) (Fin 0) = Fin 1"
    and "getColorForFlow PosInf (Fin 0) (Fin 0) = Literal ''#94a3b8''"
    and "getWidthForFlow PosInf (Fin 0) (Fin 5) = NaN"
    unfolding mn mx by blast+
  with mn mx show ?thesis by simp
qed

text \<open>
  After a load with no time steps and no features the value 5 is not given the neutral
  style.
\<close>

theorem empty_dataset_counterexample:
  "num_times \<lparr>time_steps = [], feature_ids = [], flow = Some [], velocity = None,
      depth = None, num_times = 0, num_features = 0\<rparr> = 0 \<and>
   getWidthForFlow
     (minFlowValue (processDataAndVisualize \<lparr>gpkg_feature_ids = []\<rparr>
        \<lparr>time_steps = [], feature_ids = [], flow = Some [], velocity = None,
         depth = None, num_times = 0, num_features = 0\<rparr> initial_globals))
     (maxFlowValue (processDataAndVisualize \<lparr>gpkg_feature_ids = []\<rparr>
        \<lparr>time_steps = [], feature_ids = [], flow = Some [], velocity = None,
         depth = None, num_times = 0, num_features = 0\<rparr> initial_globals))
     (Fin 5) \<noteq> Fin 1 \<and>
   getColorForFlow
     (minFlowValue (processDataAndVisualize \<lparr>gpkg_feature_ids = []\<rparr>
        \<lparr>time_steps = [], feature_ids = [], flow = Some [], velocity = None,
         depth = None, num_times = 0, num_features = 0\<rparr> initial_globals))
     (maxFlowValue (processDataAndVisualize \<lparr>gpkg_feature_ids = []\<rparr>
        \<lparr>time_steps = [], feature_ids = [], flow = Some [], velocity = None,
         depth = None, num_times = 0, num_features = 0\<rparr> initial_globals))
     (Fin 5) \<noteq> Literal ''#94a3b8''"
proof -
  have n: "normalized PosInf (Fin 0) (Fin 5) = NaN"
    by (simp add: normalized_def jsub_def)
  show ?thesis
    by (simp add: processDataAndVisualize_def initial_globals_def getWidthForFlow_def
        getColorForFlow_color_of n color_of_NaN jle_def jeq_def)
qed

section \<open>Loading the store\<close>

lemma load_cell_core: "flow_core (load_cell nc t f s) = cell_core nc t f (flow_core s)"
  by (simp add: flow_core_def cell_core_def load_cell_def Let_def)

lemma fold_load_cell_core:
  "flow_core (fold (load_cell nc t) fs s) = fold (cell_core nc t) fs (flow_core s)"
  by (induction fs arbitrary: s) (simp_all add: load_cell_core)

lemma load_slice_core: "flow_core (load_slice nc t s) = slice_core nc t (flow_core s)"
  by (simp add: load_slice_def Let_def fold_load_cell_core slice_core_def)
     (simp add: flow_core_def)

lemma fold_load_slice_core:
  "flow_core (fold (load_slice nc) ts s) = fold (slice_core nc) ts (flow_core s)"
  by (induction ts arbitrary: s) (simp_all add: load_slice_core)

lemma process_core:
  "flow_core (processDataAndVisualize gp nc s) =
     fold (slice_core nc) [0..<num_times nc] (Map.empty, Fin 0, PosInf)"
  by (simp add: processDataAndVisualize_def fold_load_slice_core) (simp add: flow_core_def)

lemma process_fixed_fields:
  "timeSteps (fold (load_slice nc) ts s) = timeSteps s \<and>
   featureIds (fold (load_slice nc) ts s) = featureIds s"
proof (induction ts arbitrary: s)
  case Nil
  show ?case by simp
next
  case (Cons t ts)
  have cellf: "timeSteps (fold (load_cell nc t) fs u) = timeSteps u \<and>
               featureIds (fold (load_cell nc t) fs u) = featureIds u" for fs u
    by (induction fs arbitrary: u) (simp_all add: load_cell_def Let_def)
  have "timeSteps (load_slice nc t s) = timeSteps s \<and> featureIds (load_slice nc t s) = featureIds s"
    by (simp add: load_slice_def Let_def cellf)
  with Cons show ?case by simp
qed

lemma upt_0_2: "[0..<2] = [0, Suc 0]"
  by (simp add: numeral_2_eq_2)


lemma scenario_core:
  assumes "nc = \<lparr>time_steps = ts, feature_ids = [''1'', ''wb-2''],
                 flow = Some [[Fin 5, Fin 0], [Fin 15, Fin 3]],
                 velocity = vel, depth = dep, num_times = 2, num_features = 2\<rparr>"
  shows "flow_core (processDataAndVisualize gp nc s)
         = ([0 \<mapsto> [''wb-1'' \<mapsto> Fin 5, ''wb-2'' \<mapsto> Fin 0],
             1 \<mapsto> [''wb-1'' \<mapsto> Fin 15, ''wb-2'' \<mapsto> Fin 3]], Fin 15, Fin 3)"
  unfolding process_core
  by (simp add: assms upt_0_2 slice_core_def cell_core_def cell_def nth_opt_def
      or_zero_def truthy_def put_cell_def normalize_def jgt_def Let_def)

lemma process_keeps_ids:
  "featureIds (processDataAndVisualize gp nc s) = gpkg_feature_ids gp \<and>
   timeSteps (processDataAndVisualize gp nc s) = time_steps nc"
  by (simp add: processDataAndVisualize_def process_fixed_fields)

text \<open>
  C1, as the code has it.  Loading the time-series feature ids \<open>["1", "wb-2"]\<close>, two
  time steps and the flow matrix \<open>[[5, 0], [15, 3]]\<close> gives a store whose slices are
  keyed by the normalized ids \<open>{"wb-1", "wb-2"}\<close>, the range \<open>{min: 3, max: 15}\<close> (the 0
  is left out of the minimum only), and the value 15 at time index 1 for \<open>"wb-1"\<close>.
  Only the ids of the time-series dataset are normalized: the geometry ids are kept in
  \<open>featureIds\<close> as they come.  The velocity and depth matrices and the state before the
  load are arbitrary.
\<close>

theorem load_scenario:
  assumes "nc = \<lparr>time_steps = [''2024-01-01T00:00'', ''2024-01-01T01:00''],
                 feature_ids = [''1'', ''wb-2''],
                 flow = Some [[Fin 5, Fin 0], [Fin 15, Fin 3]],
                 velocity = vel, depth = dep, num_times = 2, num_features = 2\<rparr>"
    and "s' = processDataAndVisualize gp nc s"
  shows "flowData s' = [0 \<mapsto> [''wb-1'' \<mapsto> Fin 5, ''wb-2'' \<mapsto> Fin 0],
                        1 \<mapsto> [''wb-1'' \<mapsto> Fin 15, ''wb-2'' \<mapsto> Fin 3]] \<and>
         dom (the (flowData s' 0)) = {''wb-1'', ''wb-2''} \<and>
         dom (the (flowData s' 1)) = {''wb-1'', ''wb-2''} \<and>
         minFlowValue s' = Fin 3 \<and> maxFlowValue s' = Fin 15 \<and>
         hover_value (flowData s') 1 ''wb-1'' = Num (Fin 15) \<and>
         plot_value (flowData s') 1 ''wb-1'' = Inr (Num (Fin 15)) \<and>
         timeSteps s' = [''2024-01-01T00:00'', ''2024-01-01T01:00''] \<and>
         featureIds s' = gpkg_feature_ids gp"
proof -
  have core: "flow_core s' = ([0 \<mapsto> [''wb-1'' \<mapsto> Fin 5, ''wb-2'' \<mapsto> Fin 0],
                        1 \<mapsto> [''wb-1'' \<mapsto> Fin 15, ''wb-2'' \<mapsto> Fin 3]], Fin 15, Fin 3)"
    unfolding assms(2) using assms(1) by (rule scenario_core)
  then have tbl: "flowData s' = [0 \<mapsto> [''wb-1'' \<mapsto> Fin 5, ''wb-2'' \<mapsto> Fin 0],
                        1 \<mapsto> [''wb-1'' \<mapsto> Fin 15, ''wb-2'' \<mapsto> Fin 3]]"
    and mx: "maxFlowValue s' = Fin 15" and mn: "minFlowValue s' = Fin 3"
    by (simp_all add: flow_core_def)
  have ts: "timeSteps s' = [''2024-01-01T00:00'', ''2024-01-01T01:00'']"
    and ids: "featureIds s' = gpkg_feature_ids gp"
    unfolding assms(2) by (simp_all add: process_keeps_ids assms(1))
  show ?thesis
    unfolding tbl mx mn ts ids
    by (simp add: hover_value_def plot_value_def read_or_zero_def or_zero_def truthy_def
        insert_commute)
qed

theorem load_scenario_witness:
  "flowData (processDataAndVisualize \<lparr>gpkg_feature_ids = [''wb-1'', ''wb-2'']\<rparr>
      \<lparr>time_steps = [''2024-01-01T00:00'', ''2024-01-01T01:00''],
       feature_ids = [''1'', ''wb-2''], flow = Some [[Fin 5, Fin 0], [Fin 15, Fin 3]],
       velocity = None, depth = None, num_times = 2, num_features = 2\<rparr> initial_globals)
     = [0 \<mapsto> [''wb-1'' \<mapsto> Fin 5, ''wb-2'' \<mapsto> Fin 0],
        1 \<mapsto> [''wb-1'' \<mapsto> Fin 15, ''wb-2'' \<mapsto> Fin 3]] \<and>
   minFlowValue (processDataAndVisualize \<lparr>gpkg_feature_ids = [''wb-1'', ''wb-2'']\<rparr>
      \<lparr>time_steps = [''2024-01-01T00:00'', ''2024-01-01T01:00''],
       feature_ids = [''1'', ''wb-2''], flow = Some [[Fin 5, Fin 0], [Fin 15, Fin 3]],
       velocity = None, depth = None, num_times = 2, num_features = 2\<rparr> initial_globals)
     = Fin 3 \<and>
   maxFlowValue (processDataAndVisualize \<lparr>gpkg_feature_ids = [''wb-1'', ''wb-2'']\<rparr>
      \<lparr>time_steps = [''2024-01-01T00:00'', ''2024-01-01T01:00''],
       feature_ids = [''1'', ''wb-2''], flow = Some [[Fin 5, Fin 0], [Fin 15, Fin 3]],
       velocity = None, depth = None, num_times = 2, num_features = 2\<rparr> initial_globals)
     = Fin 15 \<and>
   featureIds (processDataAndVisualize \<lparr>gpkg_feature_ids = [''wb-1'', ''wb-2'']\<rparr>
      \<lparr>time_steps = [''2024-01-01T00:00'', ''2024-01-01T01:00''],
       feature_ids = [''1'', ''wb-2''], flow = Some [[Fin 5, Fin 0], [Fin 15, Fin 3]],
       velocity = None, depth = None, num_times = 2, num_features = 2\<rparr> initial_globals)
     = [''wb-1'', ''wb-2'']"
  using load_scenario[where vel = None and dep = None
      and gp = "\<lparr>gpkg_feature_ids = [''wb-1'', ''wb-2'']\<rparr>" and s = initial_globals,
      OF refl refl]
  by simp

text \<open>
  With the geometry ids \<open>["1", "wb-2"]\<close> of the scenario the feature list after the load
  is \<open>["1", "wb-2"]\<close>, not \<open>{"wb-1", "wb-2"}\<close>, and the store has nothing under \<open>"1"\<close>.
\<close>

theorem load_scenario_counterexample:
  "featureIds (processDataAndVisualize \<lparr>gpkg_feature_ids = [''1'', ''wb-2'']\<rparr>
      \<lparr>time_steps = [''2024-01-01T00:00'', ''2024-01-01T01:00''],
       feature_ids = [''1'', ''wb-2''], flow = Some [[Fin 5, Fin 0], [Fin 15, Fin 3]],
       velocity = None, depth = None, num_times = 2, num_features = 2\<rparr> initial_globals)
     = [''1'', ''wb-2''] \<and>
   set (featureIds (processDataAndVisualize \<lparr>gpkg_feature_ids = [''1'', ''wb-2'']\<rparr>
      \<lparr>time_steps = [''2024-01-01T00:00'', ''2024-01-01T01:00''],
       feature_ids = [''1'', ''wb-2''], flow = Some [[Fin 5, Fin 0], [Fin 15, Fin 3]],
       velocity = None, depth = None, num_times = 2, num_features = 2\<rparr> initial_globals))
     \<noteq> {''wb-1'', ''wb-2''} \<and>
   hover_value (flowData (processDataAndVisualize \<lparr>gpkg_feature_ids = [''1'', ''wb-2'']\<rparr>
      \<lparr>time_steps = [''2024-01-01T00:00'', ''2024-01-01T01:00''],
       feature_ids = [''1'', ''wb-2''], flow = Some [[Fin 5, Fin 0], [Fin 15, Fin 3]],
       velocity = None, depth = None, num_times = 2, num_features = 2\<rparr> initial_globals))
     1 ''1'' = Num (Fin 0)"
proof -
  let ?s = "processDataAndVisualize \<lparr>gpkg_feature_ids = [''1'', ''wb-2'']\<rparr>
      \<lparr>time_steps = [''2024-01-01T00:00'', ''2024-01-01T01:00''],
       feature_ids = [''1'', ''wb-2''], flow = Some [[Fin 5, Fin 0], [Fin 15, Fin 3]],
       velocity = None, depth = None, num_times = 2, num_features = 2\<rparr> initial_globals"
  have ids: "featureIds ?s = [''1'', ''wb-2'']" by (simp add: process_keeps_ids)
  have "flow_core ?s = ([0 \<mapsto> [''wb-1'' \<mapsto> Fin 5, ''wb-2'' \<mapsto> Fin 0],
             1 \<mapsto> [''wb-1'' \<mapsto> Fin 15, ''wb-2'' \<mapsto> Fin 3]], Fin 15, Fin 3)"
    by (rule scenario_core) simp
  then have tbl: "flowData ?s = [0 \<mapsto> [''wb-1'' \<mapsto> Fin 5, ''wb-2'' \<mapsto> Fin 0],
             1 \<mapsto> [''wb-1'' \<mapsto> Fin 15, ''wb-2'' \<mapsto> Fin 3]]"
    by (simp add: flow_core_def)
  have hv: "hover_value (flowData ?s) 1 ''1'' = Num (Fin 0)"
    unfolding tbl
    by (simp add: hover_value_def read_or_zero_def object_prototype_names_def)
  have "''1'' \<in> set (featureIds ?s)" unfolding ids by simp
  moreover have "''1'' \<notin> {''wb-1'', ''wb-2''}" by simp
  ultimately have ne: "set (featureIds ?s) \<noteq> {''wb-1'', ''wb-2''}" by metis
  show ?thesis using ids hv ne by (simp only: simp_thms)
qed

section \<open>Pausing\<close>

lemma animate_paused: "\<not> isPlaying s \<Longrightarrow> animate d s = s"
  by (simp add: animate_def)

lemma fire_paused:
  assumes "\<not> isPlaying s"
  shows "\<not> isPlaying (fire tid s) \<and> currentTimeIndex (fire tid s) = currentTimeIndex s \<and>
         set (timers (fire tid s)) \<subseteq> set (timers s)"
  using assms by (auto simp: fire_def animate_def clearTimeout_def split: option.splits)

lemma fires_paused:
  assumes "\<not> isPlaying s"
  shows "\<not> isPlaying (fold fire evs s) \<and>
         currentTimeIndex (fold fire evs s) = currentTimeIndex s \<and>
         set (timers (fold fire evs s)) \<subseteq> set (timers s)"
  using assms
proof (induction evs arbitrary: s)
  case Nil
  then show ?case by simp
next
  case (Cons e evs)
  from fire_paused[OF Cons.prems, of e] Cons.IH[of "fire e s"]
  show ?case by auto
qed

lemma pauseAnimation_fields:
  "\<not> isPlaying (pauseAnimation s) \<and> currentTimeIndex (pauseAnimation s) = currentTimeIndex s"
  by (simp add: pauseAnimation_def clearTimeout_def Let_def split: option.splits)


text \<open>
  C7, as the code has it.  \<open>playAnimation\<close> runs the first tick at once, so it moves the
  index one step (wrapping to 0) before any delay.  After \<open>playAnimation\<close> followed by
  \<open>pauseAnimation\<close> with no timeout run in between, the timeout that \<open>playAnimation\<close>
  scheduled is no longer pending, the queue is empty if it was empty before, and
  whatever timeouts run afterwards, in any number and order, the index stays what it was
  at the pause, which is what \<open>playAnimation\<close> left.
\<close>

theorem pause_cancels_tick:
  "\<not> isPlaying (pauseAnimation (playAnimation speed s)) \<and>
   animationFrame (pauseAnimation (playAnimation speed s)) = None \<and>
   Suc (timerCount s) \<notin> fst ` set (timers (pauseAnimation (playAnimation speed s))) \<and>
   (timers s = [] \<longrightarrow> timers (pauseAnimation (playAnimation speed s)) = []) \<and>
   currentTimeIndex (playAnimation speed s)
     = (if int (length (timeSteps s)) \<le> currentTimeIndex s + 1 then 0
        else currentTimeIndex s + 1) \<and>
   currentTimeIndex (pauseAnimation (playAnimation speed s))
     = currentTimeIndex (playAnimation speed s) \<and>
   (\<forall>evs. currentTimeIndex (fold fire evs (pauseAnimation (playAnimation speed s)))
            = currentTimeIndex (pauseAnimation (playAnimation speed s)))"
proof -
  let ?p = "pauseAnimation (playAnimation speed s)"
  have np: "\<not> isPlaying ?p" and ci: "currentTimeIndex ?p = currentTimeIndex (playAnimation speed s)"
    using pauseAnimation_fields by blast+
  have first: "currentTimeIndex (playAnimation speed s)
     = (if int (length (timeSteps s)) \<le> currentTimeIndex s + 1 then 0
        else currentTimeIndex s + 1)"
    by (simp add: playAnimation_def animate_def Let_def)
  have af: "animationFrame ?p = None"
    by (simp add: pauseAnimation_def playAnimation_def animate_def clearTimeout_def Let_def)
  have tm: "timers ?p = filter (\<lambda>(i, d). i \<noteq> Suc (timerCount s)) (timers s)"
    by (simp add: pauseAnimation_def playAnimation_def animate_def clearTimeout_def Let_def)
  have gone: "Suc (timerCount s) \<notin> fst ` set (timers ?p)"
    unfolding tm by auto
  have emp: "timers s = [] \<longrightarrow> timers ?p = []"
    unfolding tm by simp
  have later: "currentTimeIndex (fold fire evs ?p) = currentTimeIndex ?p" for evs
    using fires_paused[OF np] by blast
  show ?thesis using np af gone emp first ci later by blast
qed


theorem pause_cancels_tick_witness:
  "timers three_steps = [] \<and> currentTimeIndex three_steps = 0 \<and>
   timers (playAnimation (Fin 1) three_steps) = [(1, Fin 100)] \<and>
   currentTimeIndex (playAnimation (Fin 1) three_steps) = 1 \<and>
   timers (pauseAnimation (playAnimation (Fin 1) three_steps)) = [] \<and>
   currentTimeIndex (fold fire [1, 1, 2] (pauseAnimation (playAnimation (Fin 1) three_steps)))
     = 1"
proof -
  have a: "timers three_steps = []" and a': "currentTimeIndex three_steps = 0"
    by (simp_all add: three_steps_def initial_globals_def)
  have b: "timers (playAnimation (Fin 1) three_steps) = [(1, Fin 100)]"
    by (simp add: playAnimation_def animate_def three_steps_def initial_globals_def Let_def)
  note t = pause_cancels_tick[of "Fin 1" three_steps]
  from t have c: "currentTimeIndex (playAnimation (Fin 1) three_steps) = 1"
    by (simp add: three_steps_def initial_globals_def)
  from t a have d: "timers (pauseAnimation (playAnimation (Fin 1) three_steps)) = []"
    by blast
  from t have "currentTimeIndex (fold fire [1, 1, 2] (pauseAnimation (playAnimation (Fin 1) three_steps)))
      = currentTimeIndex (playAnimation (Fin 1) three_steps)"
    by metis
  with a a' b c d show ?thesis by (simp only: simp_thms)
qed

text \<open>
  From index 0 on three time steps, play and an immediate pause leave the index at 1,
  also after the cancelled timeout's delay: it is not the index from before the play.
\<close>

theorem pause_cancels_tick_counterexample:
  "currentTimeIndex three_steps = 0 \<and>
   currentTimeIndex (pauseAnimation (playAnimation (Fin 1) three_steps)) = 1 \<and>
   currentTimeIndex (fold fire [1] (pauseAnimation (playAnimation (Fin 1) three_steps)))
     \<noteq> currentTimeIndex three_steps"
proof -
  have a: "currentTimeIndex three_steps = 0"
    by (simp add: three_steps_def initial_globals_def)
  have p: "currentTimeIndex (playAnimation (Fin 1) three_steps) = 1"
    by (simp add: playAnimation_def animate_def three_steps_def initial_globals_def Let_def)
  have np: "\<not> isPlaying (pauseAnimation (playAnimation (Fin 1) three_steps))"
    using pauseAnimation_fields by blast
  have b: "currentTimeIndex (pauseAnimation (playAnimation (Fin 1) three_steps)) = 1"
    using pauseAnimation_fields[of "playAnimation (Fin 1) three_steps"] p by simp
  have "currentTimeIndex (fold fire [1] (pauseAnimation (playAnimation (Fin 1) three_steps))) = 1"
    using fires_paused[OF np, of "[1]"] b by simp
  with a b show ?thesis by simp
qed

section \<open>Series lookup\<close>












section \<open>Doubles that round to themselves\<close>

lemma pow2_powr: "pow2 k = 2 powr real_of_int k"
  by (simp add: pow2_def powr_real_of_int inverse_eq_divide)

lemma pow2_add: "pow2 (a + b) = pow2 a * pow2 b"
  by (simp add: pow2_powr powr_add)

lemma pow2_nat: "pow2 (int j) = 2 ^ j"
  by (simp add: pow2_def)

lemma pow2_pos: "0 < pow2 k"
  by (simp add: pow2_powr)

lemma half_even_int: "half_even (of_int n) = n"
  by (simp add: half_even_def)

lemma floor_log2_bounds:
  assumes "2 ^ j \<le> x" and "x < 2 ^ (53 + j)"
  shows "int j \<le> \<lfloor>log 2 x\<rfloor> \<and> \<lfloor>log 2 x\<rfloor> \<le> 52 + int j"
proof -
  have xpos: "0 < x" using assms(1) by (smt (verit) zero_less_power)
  have lo: "real j \<le> log 2 x" using assms(1) by (intro le_log_of_power) simp_all
  have "(2::real) powr (53 + real j) = 2 powr real (53 + j)" by simp
  also have "\<dots> = 2 ^ (53 + j)" by (rule powr_realpow) simp
  finally have p: "(2::real) powr (53 + real j) = 2 ^ (53 + j)" .
  have hi: "log 2 x < real (53 + j)"
    using assms(2) xpos by (simp add: log_less_iff p)
  from lo have "int j \<le> \<lfloor>log 2 x\<rfloor>" by (simp add: le_floor_iff)
  moreover from hi have "\<lfloor>log 2 x\<rfloor> < 53 + int j" by (simp add: floor_less_iff)
  ultimately show ?thesis by simp
qed

lemma round_double_exact:
  assumes m: "m \<noteq> 0" "\<bar>m\<bar> < 2 ^ 53" and j: "j \<le> 971"
  shows "round_double (of_int m * 2 ^ j) = Fin (of_int m * 2 ^ j)"
proof -
  let ?x = "of_int m * (2::real) ^ j"
  have x0: "?x \<noteq> 0" using m(1) by simp
  have ax: "\<bar>?x\<bar> = of_int \<bar>m\<bar> * 2 ^ j" by (simp add: abs_mult)
  have m1: "1 \<le> \<bar>m\<bar>" using m(1) by simp
  have lo: "2 ^ j \<le> \<bar>?x\<bar>"
  proof -
    have "(1::real) * 2 ^ j \<le> of_int \<bar>m\<bar> * 2 ^ j"
      using m1 by (intro mult_right_mono) simp_all
    then show ?thesis using ax by simp
  qed
  have mle: "real_of_int \<bar>m\<bar> \<le> 2 ^ 53 - 1"
  proof -
    have "\<bar>m\<bar> \<le> 2 ^ 53 - 1" using m(2) by simp
    then have "real_of_int \<bar>m\<bar> \<le> real_of_int (2 ^ 53 - 1)" by (rule of_int_le_iff[THEN iffD2])
    then show ?thesis by simp
  qed
  have hi: "\<bar>?x\<bar> < 2 ^ (53 + j)"
  proof -
    have "real_of_int \<bar>m\<bar> < 2 ^ 53" using mle by simp
    then have "of_int \<bar>m\<bar> * (2::real) ^ j < 2 ^ 53 * 2 ^ j"
      by (intro mult_strict_right_mono) simp_all
    then show ?thesis using ax by (simp add: power_add)
  qed
  have top: "\<bar>?x\<bar> < 2 ^ 1024 - 2 ^ 970"
  proof -
    have "(2::real) ^ j \<le> 2 ^ 971" using j by (intro power_increasing) simp_all
    then have "of_int \<bar>m\<bar> * (2::real) ^ j \<le> (2 ^ 53 - 1) * 2 ^ 971"
      using mle by (intro mult_mono) simp_all
    also have "\<dots> = 2 ^ 1024 - (2::real) ^ 971" by (simp add: algebra_simps flip: power_add)
    also have "\<dots> < 2 ^ 1024 - (2::real) ^ 970" by simp
    finally show ?thesis using ax by simp
  qed
  from floor_log2_bounds[OF lo hi]
  have e: "int j \<le> \<lfloor>log 2 \<bar>?x\<bar>\<rfloor>" "\<lfloor>log 2 \<bar>?x\<bar>\<rfloor> \<le> 52 + int j" by simp_all
  define k where "k = ulp_exp ?x"
  have k: "k \<le> int j" "0 \<le> int j - k"
    using e by (simp_all add: k_def ulp_exp_def)
  define d where "d = nat (int j - k)"
  have "pow2 (int j) = pow2 (k + int d)" using k by (simp add: d_def)
  then have pj: "(2::real) ^ j = pow2 k * 2 ^ d" by (simp add: pow2_add pow2_nat)
  have q: "?x / pow2 k = of_int (m * 2 ^ d)"
    using pow2_pos[of k] by (simp add: pj)
  have "of_int (half_even (?x / pow2 k)) * pow2 k = ?x"
    unfolding q half_even_int using pj by simp
  then show ?thesis
    using x0 top unfolding round_double_def k_def by simp
qed

lemma round_double_int:
  assumes "\<bar>m\<bar> < 2 ^ 53"
  shows "round_double (of_int m) = Fin (of_int m)"
proof (cases "m = 0")
  case True
  then show ?thesis by (simp add: round_double_def)
next
  case False
  from round_double_exact[OF False assms, of 0] show ?thesis by simp
qed

lemma round_double_numeral [simp]:
  "(numeral w :: int) < 2 ^ 53 \<Longrightarrow> round_double (numeral w) = Fin (numeral w)"
  using round_double_int[of "numeral w"] by simp

lemma round_double_0 [simp]: "round_double 0 = Fin 0"
  by (simp add: round_double_def)


lemma dadd_int:
  assumes "\<bar>a + b\<bar> < 2 ^ 53"
  shows "dadd (Fin (of_int a)) (Fin (of_int b)) = Fin (of_int (a + b))"
  using round_double_int[OF assms] by simp

lemma foldl_dadd_ints:
  "\<bar>a\<bar> + (\<Sum>n\<leftarrow>ns. \<bar>n\<bar>) < 2 ^ 53 \<Longrightarrow>
   foldl dadd (Fin (of_int a)) (map (\<lambda>n. Fin (of_int n)) ns) = Fin (of_int (a + sum_list ns))"
proof (induction ns arbitrary: a)
  case Nil
  then show ?case by simp
next
  case (Cons n ns)
  have step: "\<bar>a + n\<bar> < 2 ^ 53"
  proof -
    have "0 \<le> (\<Sum>n\<leftarrow>ns. \<bar>n\<bar>)" by (rule sum_list_nonneg) auto
    with Cons.prems show ?thesis by simp
  qed
  have rest: "\<bar>a + n\<bar> + (\<Sum>n\<leftarrow>ns. \<bar>n\<bar>) < 2 ^ 53" using Cons.prems by simp
  show ?case
    using Cons.IH[OF rest] dadd_int[OF step] by (simp add: add.assoc)
qed

lemma float_mean_ints:
  assumes "ns \<noteq> []" and "(\<Sum>n\<leftarrow>ns. \<bar>n\<bar>) < 2 ^ 53"
  shows "float_mean (map (\<lambda>n. Fin (of_int n)) ns)
         = round_double (of_int (sum_list ns) / real (length ns))"
proof -
  have "foldl dadd (Fin (of_int 0)) (map (\<lambda>n. Fin (of_int n)) ns) = Fin (of_int (0 + sum_list ns))"
    by (rule foldl_dadd_ints) (use assms(2) in simp)
  then show ?thesis using assms(1) by (simp add: float_mean_def)
qed

section \<open>Resampling\<close>

lemma spec_blocks_Nil [simp]: "spec_blocks k [] = []"
  by (simp add: spec_blocks.simps)

lemma spec_blocks_0 [simp]: "spec_blocks 0 xs = []"
  by (simp add: spec_blocks.simps)

lemma js_slice_block:
  assumes "0 \<le> i" and "1 \<le> k"
  shows "js_slice xs i (i + k) = take (nat k) (drop (nat i) xs)"
proof -
  let ?len = "int (length xs)"
  have "take (nat (min (i + k) ?len - min i ?len)) (drop (nat (min i ?len)) xs)
        = take (nat k) (drop (nat i) xs)"
  proof (cases "i \<le> ?len")
    case True
    then have m: "min i ?len = i" by simp
    show ?thesis
    proof (cases "i + k \<le> ?len")
      case True
      then show ?thesis using m by simp
    next
      case False
      then have "min (i + k) ?len = ?len" by simp
      moreover have "length (drop (nat i) xs) = nat (?len - i)" using assms(1) by simp
      ultimately show ?thesis using m False assms by simp
    qed
  next
    case False
    then show ?thesis using assms by simp
  qed
  then show ?thesis using assms by (simp add: js_slice_def Let_def)
qed


lemma resample_loop_blocks:
  assumes "1 \<le> k"
  shows "0 \<le> i \<Longrightarrow> resample_loop xs k i acc
           = Some (acc @ map (\<lambda>b. Num (slice_avg b)) (spec_blocks (nat k) (drop (nat i) xs)))"
proof (induction "length xs - nat i" arbitrary: i acc rule: less_induct)
  case less
  show ?case
  proof (cases "i < int (length xs)")
    case False
    then have "drop (nat i) xs = []" by simp
    then show ?thesis using False
      by (subst resample_loop.simps) (simp add: spec_blocks_Nil)
  next
    case True
    have k0: "nat k \<noteq> 0" using assms by simp
    have ne: "drop (nat i) xs \<noteq> []" using True less.prems by simp
    have dec: "length xs - nat (i + k) < length xs - nat i"
      using True less.prems assms by linarith
    have nxt: "0 \<le> i + k" using less.prems assms by simp
    have dd: "drop (nat k) (drop (nat i) xs) = drop (nat (i + k)) xs"
      using less.prems assms by (simp add: nat_add_distrib add.commute)
    have "resample_loop xs k i acc
          = resample_loop xs k (i + k) (acc @ [Num (slice_avg (js_slice xs i (i + k)))])"
      using True by (subst resample_loop.simps) simp
    also have "\<dots> = Some ((acc @ [Num (slice_avg (js_slice xs i (i + k)))])
                      @ map (\<lambda>b. Num (slice_avg b)) (spec_blocks (nat k) (drop (nat (i + k)) xs)))"
      by (rule less.hyps[OF dec nxt])
    also have "\<dots> = Some (acc @ map (\<lambda>b. Num (slice_avg b)) (spec_blocks (nat k) (drop (nat i) xs)))"
      using k0 ne dd
      by (subst (2) spec_blocks.simps) (simp add: js_slice_block[OF less.prems assms])
    finally show ?thesis .
  qed
qed

lemma foldl_plus_acc_nums:
  "foldl plus_acc (AccNum a) (map Num blk) = AccNum (foldl dadd a blk)"
  by (induction blk arbitrary: a) simp_all

lemma slice_avg_nums: "slice_avg (map Num blk) = float_mean blk"
  by (simp add: slice_avg_def float_mean_def foldl_plus_acc_nums)

lemma spec_blocks_map: "spec_blocks k (map f xs) = map (map f) (spec_blocks k xs)"
proof (induction k xs rule: spec_blocks.induct)
  case (1 k xs)
  show ?case
  proof (cases "k = 0 \<or> xs = []")
    case True
    then show ?thesis by auto
  next
    case False
    with 1 show ?thesis
      by (simp add: spec_blocks.simps[of k xs] spec_blocks.simps[of k "map f xs"]
          take_map drop_map)
  qed
qed

lemma spec_blocks_nonempty: "b \<in> set (spec_blocks k xs) \<Longrightarrow> b \<noteq> [] \<and> length b \<le> k"
proof (induction k xs rule: spec_blocks.induct)
  case (1 k xs)
  show ?case
  proof (cases "k = 0 \<or> xs = []")
    case True
    with 1 show ?thesis by auto
  next
    case False
    with 1 show ?thesis by (auto simp del: spec_blocks.simps simp add: spec_blocks.simps[of k xs])
  qed
qed

lemma spec_blocks_concat: "0 < k \<Longrightarrow> concat (spec_blocks k xs) = xs"
proof (induction k xs rule: spec_blocks.induct)
  case (1 k xs)
  show ?case
  proof (cases "xs = []")
    case True
    then show ?thesis by simp
  next
    case False
    with 1 show ?thesis by (simp del: spec_blocks.simps add: spec_blocks.simps[of k xs])
  qed
qed

lemma spec_blocks_full:
  "0 < k \<Longrightarrow> b \<in> set (butlast (spec_blocks k xs)) \<Longrightarrow> length b = k"
proof (induction k xs rule: spec_blocks.induct)
  case (1 k xs)
  show ?case
  proof (cases "xs = []")
    case True
    with 1 show ?thesis by simp
  next
    case False
    show ?thesis
    proof (cases "spec_blocks k (drop k xs) = []")
      case True
      with 1 False show ?thesis by (simp del: spec_blocks.simps add: spec_blocks.simps[of k xs])
    next
      case ne: False
      then have "drop k xs \<noteq> []" by auto
      then have "length (take k xs) = k" by simp
      with 1 False ne show ?thesis
        by (auto simp del: spec_blocks.simps simp add: spec_blocks.simps[of k xs])
    qed
  qed
qed

lemma spec_blocks_length: "0 < k \<Longrightarrow> length (spec_blocks k xs) = (length xs + k - 1) div k"
proof (induction k xs rule: spec_blocks.induct)
  case (1 k xs)
  show ?case
  proof (cases "xs = []")
    case True
    then show ?thesis using 1 by simp
  next
    case False
    then have n: "0 < length xs" by simp
    have ih: "length (spec_blocks k (drop k xs)) = (length xs - k + k - 1) div k"
      using 1 False by simp
    have "length (spec_blocks k xs) = Suc ((length xs - k + k - 1) div k)"
      using 1 False ih by (simp del: spec_blocks.simps add: spec_blocks.simps[of k xs])
    also have "\<dots> = (length xs + k - 1) div k"
    proof (cases "length xs \<le> k")
      case True
      then have a: "(length xs - k + k - 1) div k = 0" using 1(2) by simp
      have e: "length xs + k - 1 = k + (length xs - 1)" using n by linarith
      have l: "length xs - 1 < k" using True n by linarith
      have "(length xs + k - 1) div k = 1"
        unfolding e using l 1(2) by simp
      with a show ?thesis by simp
    next
      case False
      then have e: "length xs + k - 1 = (length xs - 1) + k"
        and e': "length xs - k + k - 1 = length xs - 1" by linarith+
      show ?thesis unfolding e e' using 1(2) by simp
    qed
    finally show ?thesis .
  qed
qed


lemma resample_loop_spec:
  assumes "1 \<le> k"
  shows "resample_loop (map Num xs) (int k) 0 [] = Some (map Num (map float_mean (spec_blocks k xs)))"
  using resample_loop_blocks[of "int k" 0 "map Num xs" "[]"] assms
  by (simp add: spec_blocks_map slice_avg_nums comp_def)


lemma round_double_1 [simp]: "round_double 1 = Fin 1"
  using round_double_int[of 1] by simp

lemma pair_avg:
  assumes "round_double x = Fin x" and "round_double (x + x) = PosInf"
  shows "resampleData [Num (Fin x), Num (Fin x)] 2 = Some [Num PosInf]"
proof -
  have "slice_avg [Num (Fin x), Num (Fin x)] = PosInf"
    using assms by (simp add: slice_avg_def)
  then show ?thesis
    by (simp add: resampleData_def resample_loop.simps js_slice_def)
qed

lemma round_double_top: "round_double (2 ^ 1023) = Fin (2 ^ 1023)"
  using round_double_exact[of "2 ^ 52" 971] by (simp flip: power_add)

lemma round_double_overflow: "round_double (2 ^ 1023 + 2 ^ 1023) = PosInf"
  by (simp add: round_double_def)

text \<open>
  C2, as the code has it.  For every series of numbers and every interval \<open>k >= 1\<close>:
  \<open>resampleData\<close> with interval 1 returns the series itself; \<open>resampleData\<close> with interval
  \<open>k\<close> returns (and so ends) with the means of the consecutive blocks of the series, in
  order, each mean taken in double arithmetic (the sum from the left, rounded after
  every addition, over the block's length, rounded); the blocks concatenate to the
  series, none is empty or longer than \<open>k\<close>, and all but the last have length \<open>k\<close>; the
  result has \<open>ceil(n / k)\<close> elements.  For a block of integers whose absolute values sum
  to less than \<open>2^53\<close> the mean is the exact arithmetic mean rounded once to the nearest
  double; \<open>[10, 20, 30, 40]\<close> with interval 2 gives \<open>[15, 35]\<close>.
\<close>

theorem resample_blocks_mean:
  assumes "1 \<le> k"
  shows "resampleData (map Num s) 1 = Some (map Num s) \<and>
         resampleData (map Num s) (int k) = Some (map Num (spec_resample s k)) \<and>
         length (spec_resample s k) = (length s + k - 1) div k \<and>
         concat (spec_blocks k s) = s \<and>
         (\<forall>b \<in> set (spec_blocks k s). b \<noteq> [] \<and> length b \<le> k) \<and>
         (\<forall>b \<in> set (butlast (spec_blocks k s)). length b = k) \<and>
         (\<forall>ns. ns \<noteq> [] \<and> (\<Sum>n\<leftarrow>ns. \<bar>n\<bar>) < 2 ^ 53 \<longrightarrow>
            float_mean (map (\<lambda>n. Fin (of_int n)) ns)
              = round_double (of_int (sum_list ns) / real (length ns))) \<and>
         resampleData [Num (Fin 10), Num (Fin 20), Num (Fin 30), Num (Fin 40)] 2
           = Some [Num (Fin 15), Num (Fin 35)]"
proof -
  have k0: "0 < k" using assms by simp
  have ident: "resampleData (map Num s) 1 = Some (map Num s)" by (simp add: resampleData_def)
  have main: "resampleData (map Num xs) (int k) = Some (map Num (spec_resample xs k))" for xs
  proof (cases "k = 1")
    case True
    then show ?thesis by (simp add: resampleData_def spec_resample_def)
  next
    case False
    then show ?thesis
      using resample_loop_spec[OF assms, of xs] by (simp add: resampleData_def spec_resample_def)
  qed
  have len: "length (spec_resample s k) = (length s + k - 1) div k"
  proof (cases "k = 1")
    case True
    then show ?thesis by (simp add: spec_resample_def)
  next
    case False
    then show ?thesis using spec_blocks_length[OF k0, of s] by (simp add: spec_resample_def)
  qed
  have two: "(1::nat) \<le> 2" by simp
  have "resampleData (map Num [Fin 10, Fin 20, Fin 30, Fin 40]) (int 2)
        = Some (map Num (map float_mean (spec_blocks 2 [Fin 10, Fin 20, Fin 30, Fin 40])))"
    using resample_loop_spec[OF two, of "[Fin 10, Fin 20, Fin 30, Fin 40]"]
    by (simp add: resampleData_def)
  then have ex: "resampleData [Num (Fin 10), Num (Fin 20), Num (Fin 30), Num (Fin 40)] 2
      = Some [Num (Fin 15), Num (Fin 35)]"
    by (simp add: spec_blocks.simps float_mean_def)
  show ?thesis
    using ident main len spec_blocks_concat[OF k0] spec_blocks_nonempty spec_blocks_full[OF k0]
      float_mean_ints ex
    by blast
qed

theorem resample_blocks_mean_witness:
  "(1::nat) \<le> 3 \<and>
   resampleData [Num (Fin 1), Num (Fin 2), Num (Fin 6), Num (Fin 4), Num (Fin 8)] 3
     = Some [Num (Fin 3), Num (Fin 6)] \<and>
   length [Fin 3, Fin 6 :: jsnum] = (5 + 3 - 1) div 3 \<and>
   float_mean [Fin 1, Fin 2, Fin 6] = round_double (9 / 3)"
proof -
  have h: "(1::nat) \<le> 3" by simp
  note t = resample_blocks_mean[OF h, of "[Fin 1, Fin 2, Fin 6, Fin 4, Fin 8]"]
  from t have "resampleData (map Num [Fin 1, Fin 2, Fin 6, Fin 4, Fin 8]) (int 3)
        = Some (map Num (spec_resample [Fin 1, Fin 2, Fin 6, Fin 4, Fin 8] 3))"
    by blast
  then have a: "resampleData [Num (Fin 1), Num (Fin 2), Num (Fin 6), Num (Fin 4), Num (Fin 8)] 3
     = Some [Num (Fin 3), Num (Fin 6)]"
    by (simp add: spec_resample_def spec_blocks.simps float_mean_def)
  have hyp: "[1, 2, 6 :: int] \<noteq> [] \<and> (\<Sum>n\<leftarrow>[1, 2, 6 :: int]. \<bar>n\<bar>) < 2 ^ 53" by simp
  from t hyp have "float_mean (map (\<lambda>n. Fin (of_int n)) [1, 2, 6])
      = round_double (of_int (sum_list [1, 2, 6]) / real (length [1, 2, 6 :: int]))"
    by blast
  then have b: "float_mean [Fin 1, Fin 2, Fin 6] = round_double (9 / 3)" by simp
  from h a b show ?thesis by simp
qed

text \<open>
  The mean as computed is not always the arithmetic mean: the two doubles \<open>2^1023\<close>
  have the mean \<open>2^1023\<close>, but their sum overflows and \<open>resampleData\<close> gives \<open>Infinity\<close>.
\<close>

theorem resample_blocks_mean_counterexample:
  "resampleData [Num (Fin (2 ^ 1023)), Num (Fin (2 ^ 1023))] 2 = Some [Num PosInf] \<and>
   ((2 :: real) ^ 1023 + 2 ^ 1023) / 2 = 2 ^ 1023 \<and>
   resampleData [Num (Fin (2 ^ 1023)), Num (Fin (2 ^ 1023))] 2
     \<noteq> Some [Num (Fin ((2 ^ 1023 + 2 ^ 1023) / 2))]"
proof -
  have r: "resampleData [Num (Fin (2 ^ 1023)), Num (Fin (2 ^ 1023))] 2 = Some [Num PosInf]"
    using round_double_top round_double_overflow by (rule pair_avg)
  have m: "((2 :: real) ^ 1023 + 2 ^ 1023) / 2 = 2 ^ 1023" by simp
  have "Some [Num PosInf] \<noteq> Some [Num (Fin ((2 ^ 1023 + 2 ^ 1023) / 2))]" by simp
  with r have ne: "resampleData [Num (Fin (2 ^ 1023)), Num (Fin (2 ^ 1023))] 2
     \<noteq> Some [Num (Fin ((2 ^ 1023 + 2 ^ 1023) / 2))]" by metis
  from r m ne show ?thesis by (simp only: simp_thms)
qed

section \<open>The chart leaves the shared state alone\<close>

lemma resampleData_returns:
  assumes "1 \<le> k"
  shows "resampleData xs k \<noteq> None"
proof (cases "k = 1")
  case True
  then show ?thesis by (simp add: resampleData_def)
next
  case False
  from resample_loop_blocks[OF assms, of 0 xs "[]"] False show ?thesis
    by (simp add: resampleData_def)
qed

lemma updatePlot_part000_shape:
  assumes "updatePlot_part000 s = Some (Inr s')"
  shows "\<exists>c. s' = s\<lparr>chart := c\<rparr>"
proof (cases "flowpathId (plotState s)")
  case None
  with assms have "s' = s" by (simp add: updatePlot_part000_def)
  then have "s' = s\<lparr>chart := chart s\<rparr>" by simp
  then show ?thesis ..
next
  case (Some fid)
  show ?thesis
  proof (cases "fid = []")
    case True
    with assms Some have "s' = s" by (simp add: updatePlot_part000_def)
    then have "s' = s\<lparr>chart := chart s\<rparr>" by simp
    then show ?thesis ..
  next
    case False
    with assms Some show ?thesis
      by (auto simp: updatePlot_part000_def Let_def
          split: sum.splits prod.splits Option.bind_splits if_splits)
  qed
qed

lemma updatePlot_part000_returns:
  assumes "1 \<le> resampleInterval (plotState s)"
  shows "updatePlot_part000 s \<noteq> None"
proof -
  have r: "\<exists>ys. resampleData xs (resampleInterval (plotState s)) = Some ys" for xs
    using resampleData_returns[OF assms, of xs] by auto
  show ?thesis
  proof (cases "flowpathId (plotState s)")
    case None
    then show ?thesis by (simp add: updatePlot_part000_def)
  next
    case (Some fid)
    show ?thesis
    proof (cases "fid = []")
      case True
      with Some show ?thesis by (simp add: updatePlot_part000_def)
    next
      case False
      show ?thesis
      proof (cases "plot_series s fid [0..<length (timeSteps s)] ([], [], [])")
        case (Inl e)
        with Some False show ?thesis by (simp add: updatePlot_part000_def)
      next
        case (Inr series)
        obtain fv vv dv where series: "series = (fv, vv, dv)" by (cases series)
        obtain rf where rf: "resampleData fv (resampleInterval (plotState s)) = Some rf"
          using r by blast
        obtain rv where rv: "resampleData vv (resampleInterval (plotState s)) = Some rv"
          using r by blast
        obtain rd where rd: "resampleData dv (resampleInterval (plotState s)) = Some rd"
          using r by blast
        show ?thesis
          using Some False Inr series rf rv rd
          by (simp add: updatePlot_part000_def Let_def)
      qed
    qed
  qed
qed

text \<open>
  C9.  Extracting and resampling a feature's series for the chart ends for every
  interval \<open>>= 1\<close>, and when it draws it changes nothing but the chart: the time axis,
  the current index, the three series tables, the playing flag, the flow range and the
  plot state are what they were.  (When the flow read throws, nothing has been written
  either: the model's error result carries no state.)
\<close>

theorem updatePlot_frame:
  "(1 \<le> resampleInterval (plotState s) \<longrightarrow> updatePlot_part000 s \<noteq> None) \<and>
   (\<forall>s'. updatePlot_part000 s = Some (Inr s') \<longrightarrow>
      timeSteps s' = timeSteps s \<and> currentTimeIndex s' = currentTimeIndex s \<and>
      flowData s' = flowData s \<and> velocityData s' = velocityData s \<and>
      depthData s' = depthData s \<and> isPlaying s' = isPlaying s \<and>
      minFlowValue s' = minFlowValue s \<and> maxFlowValue s' = maxFlowValue s \<and>
      plotState s' = plotState s \<and> s' = s\<lparr>chart := chart s'\<rparr>)"
proof -
  have "timeSteps s' = timeSteps s \<and> currentTimeIndex s' = currentTimeIndex s \<and>
      flowData s' = flowData s \<and> velocityData s' = velocityData s \<and>
      depthData s' = depthData s \<and> isPlaying s' = isPlaying s \<and>
      minFlowValue s' = minFlowValue s \<and> maxFlowValue s' = maxFlowValue s \<and>
      plotState s' = plotState s \<and> s' = s\<lparr>chart := chart s'\<rparr>"
    if "updatePlot_part000 s = Some (Inr s')" for s'
  proof -
    from updatePlot_part000_shape[OF that] obtain c where "s' = s\<lparr>chart := c\<rparr>" ..
    then show ?thesis by simp
  qed
  then show ?thesis using updatePlot_part000_returns by blast
qed

lemma upt_0_3: "[0..<3] = [0, Suc 0, Suc (Suc 0)]"
  by (simp add: numeral_3_eq_3)

lemma plot_example_result:
  "updatePlot_part000 plot_example =
     Some (Inr (plot_example\<lparr>chart :=
       Some [\<lparr>trace_x = StepNumbers [0, 2], trace_y = [Num (Fin 15), Num (Fin 30)], trace_name = Flow\<rparr>]\<rparr>))"
  by (simp add: updatePlot_part000_def plot_example_def initial_globals_def upt_0_3 plot_value_def
      read_or_zero_def or_zero_def truthy_def resampleData_def resample_loop.simps js_slice_def
      slice_avg_def traces_of_def Let_def upt_0_2 round_double_numeral round_double_0)

theorem updatePlot_frame_witness:
  "1 \<le> resampleInterval (plotState plot_example) \<and>
   updatePlot_part000 plot_example =
     Some (Inr (plot_example\<lparr>chart :=
       Some [\<lparr>trace_x = StepNumbers [0, 2], trace_y = [Num (Fin 15), Num (Fin 30)], trace_name = Flow\<rparr>]\<rparr>)) \<and>
   timeSteps (plot_example\<lparr>chart :=
       Some [\<lparr>trace_x = StepNumbers [0, 2], trace_y = [Num (Fin 15), Num (Fin 30)], trace_name = Flow\<rparr>]\<rparr>)
     = [''2024-01-01T00:00'', ''2024-01-01T01:00'', ''2024-01-01T02:00''] \<and>
   currentTimeIndex (plot_example\<lparr>chart :=
       Some [\<lparr>trace_x = StepNumbers [0, 2], trace_y = [Num (Fin 15), Num (Fin 30)], trace_name = Flow\<rparr>]\<rparr>)
     = 1"
proof -
  have i: "1 \<le> resampleInterval (plotState plot_example)"
    by (simp add: plot_example_def initial_globals_def)
  have ts: "timeSteps plot_example = [''2024-01-01T00:00'', ''2024-01-01T01:00'', ''2024-01-01T02:00'']"
    and ci: "currentTimeIndex plot_example = 1"
    by (simp_all add: plot_example_def initial_globals_def)
  from updatePlot_frame[of plot_example] plot_example_result
  have "timeSteps (plot_example\<lparr>chart :=
       Some [\<lparr>trace_x = StepNumbers [0, 2], trace_y = [Num (Fin 15), Num (Fin 30)], trace_name = Flow\<rparr>]\<rparr>)
       = timeSteps plot_example"
    and "currentTimeIndex (plot_example\<lparr>chart :=
       Some [\<lparr>trace_x = StepNumbers [0, 2], trace_y = [Num (Fin 15), Num (Fin 30)], trace_name = Flow\<rparr>]\<rparr>)
       = currentTimeIndex plot_example"
    by blast+
  with i ts ci plot_example_result show ?thesis by (simp only: simp_thms)
qed

end
